theory Spec2Isabelle
  imports Main "HOL-Library.Sublist"
begin

section \<open>Python strings and bytes\<close>

text \<open>
  A Python \<open>str\<close> is modelled by the bytes of its UTF-8 encoding, a \<open>string\<close>.
  The script only splits on \<open>'/'\<close> and \<open>' '\<close>, replaces \<open>' '\<close> by \<open>'_'\<close> and
  concatenates; on ASCII separators these act on the encoding exactly as on the code
  points. \<open>bytes\<close> are a \<open>string\<close> as well, and \<open>bytes.decode('UTF-8')\<close> is the
  identity on well-formed input and raises \<open>UnicodeDecodeError\<close> otherwise.
\<close>

text \<open>\<open>s.split(sep)\<close> for a separator of one character: the pieces between the
  separators, never an empty list.\<close>

fun split_from :: "char \<Rightarrow> string \<Rightarrow> string \<Rightarrow> string list" where
  "split_from sep piece [] = [rev piece]"
| "split_from sep piece (c # cs) =
     (if c = sep then rev piece # split_from sep [] cs
      else split_from sep (c # piece) cs)"

definition split :: "string \<Rightarrow> char \<Rightarrow> string list" where
  "split s sep = split_from sep [] s"

text \<open>\<open>s.replace(" ", "_")\<close>: both arguments are one character long.\<close>

definition replace :: "string \<Rightarrow> char \<Rightarrow> char \<Rightarrow> string" where
  "replace s old new = map (\<lambda>c. if c = old then new else c) s"

text \<open>\<open>needle in haystack\<close> on strings.\<close>

fun startswith :: "string \<Rightarrow> string \<Rightarrow> bool" where
  "startswith s [] = True"
| "startswith [] (p # ps) = False"
| "startswith (c # cs) (p # ps) = (c = p \<and> startswith cs ps)"

fun contains :: "string \<Rightarrow> string \<Rightarrow> bool" where
  "contains [] needle = (needle = [])"
| "contains (c # cs) needle = (startswith (c # cs) needle \<or> contains cs needle)"

text \<open>\<open>str(n)\<close> for an integer: its decimal digits.\<close>

definition digit :: "nat \<Rightarrow> char" where
  "digit d = char_of (48 + d)"

function str_nat :: "nat \<Rightarrow> string" where
  "str_nat n = (if n < 10 then [digit n] else str_nat (n div 10) @ [digit (n mod 10)])"
  by pat_completeness auto
termination
  by (relation "measure id") auto

declare str_nat.simps [simp del]

definition str_int :: "int \<Rightarrow> string" where
  "str_int i = (if i < 0 then CHR ''-'' # str_nat (nat (- i)) else str_nat (nat i))"

text \<open>Well-formed UTF-8, as the strict decoder of Python accepts it: no overlong form,
  no surrogate, nothing above U+10FFFF.\<close>

definition continuation :: "nat \<Rightarrow> bool" where
  "continuation b = (128 \<le> b \<and> b \<le> 191)"

definition second_of_three :: "nat \<Rightarrow> nat \<Rightarrow> bool" where
  "second_of_three a b =
     (if a = 224 then 160 \<le> b \<and> b \<le> 191
      else if a = 237 then 128 \<le> b \<and> b \<le> 159
      else continuation b)"

definition second_of_four :: "nat \<Rightarrow> nat \<Rightarrow> bool" where
  "second_of_four a b =
     (if a = 240 then 144 \<le> b \<and> b \<le> 191
      else if a = 244 then 128 \<le> b \<and> b \<le> 143
      else continuation b)"

fun valid_utf8 :: "nat list \<Rightarrow> bool" where
  "valid_utf8 [] = True"
| "valid_utf8 (a # bs) =
     (if a < 128 then valid_utf8 bs
      else if 194 \<le> a \<and> a \<le> 223 then
        (case bs of b # r \<Rightarrow> continuation b \<and> valid_utf8 r | _ \<Rightarrow> False)
      else if 224 \<le> a \<and> a \<le> 239 then
        (case bs of b # c # r \<Rightarrow> second_of_three a b \<and> continuation c \<and> valid_utf8 r
         | _ \<Rightarrow> False)
      else if 240 \<le> a \<and> a \<le> 244 then
        (case bs of b # c # d # r \<Rightarrow>
           second_of_four a b \<and> continuation c \<and> continuation d \<and> valid_utf8 r
         | _ \<Rightarrow> False)
      else False)"

definition decode :: "string \<Rightarrow> string option" where
  "decode b = (if valid_utf8 (map of_char b) then Some b else None)"

section \<open>Values, exceptions and the state of a run\<close>

text \<open>What \<open>r.json()\<close> can return. A dict is an association list read with
  \<open>map_of\<close>; a float is kept as its literal, no claim computes with one.\<close>

datatype pyval =
    PNone
  | PBool bool
  | PInt int
  | PFloat string
  | PStr string
  | PList "pyval list"
  | PDict "(string \<times> pyval) list"

text \<open>\<open>subprocess.CompletedProcess\<close>: \<open>stdout\<close> and \<open>stderr\<close> are \<open>None\<close> unless
  they were captured with \<open>PIPE\<close>.\<close>

record completed_process =
  args :: "string list"
  returncode :: int
  stdout :: "string option"
  stderr :: "string option"

text \<open>The \<open>timeout\<close> a \<open>TimeoutExpired\<close> carries: the seconds given to
  \<open>subprocess.run\<close>, or what was left of them when \<open>Popen.wait\<close> was called, a float
  below them (floats are not modelled, only which of the two it is).\<close>

datatype seconds =
    Seconds int
  | Remaining int

text \<open>The exceptions of the script (lines 56 to 70), \<open>subprocess.TimeoutExpired\<close> with
  its \<open>cmd\<close> and \<open>timeout\<close>, \<open>SystemExit\<close> and \<open>KeyboardInterrupt\<close> (each a
  \<open>BaseException\<close>, which \<open>except Exception\<close> does not catch), the built-in ones the statements of \<open>main\<close> can
  raise, and \<open>LibraryError\<close> for any other \<open>Exception\<close> coming out of \<open>requests\<close>,
  \<open>open\<close>, \<open>write\<close> or \<open>subprocess\<close>, named by a string.\<close>

datatype exn =
    FatalError string
  | HaltedError string
  | ReturncodeNonZeroError completed_process
  | TimeoutExpired "string list" seconds
  | SystemExit int
  | KeyboardInterrupt
  | UnboundLocalError string
  | KeyError string
  | TypeError
  | AttributeError string
  | IndexError
  | UnicodeDecodeError
  | FileNotFoundError string
  | LibraryError string

text \<open>A line written to a stream: the text, or the format string with the values given
  to \<open>format\<close>. Python's \<open>repr\<close> of a list, its rendering of a float and \<open>str\<close> of
  an exception are not modelled; the values are kept instead.\<close>

datatype fmt_arg =
    AStr string
  | AInt int
  | ASeconds seconds
  | AList "string list"
  | AVal pyval
  | AExn exn
  | AElapsed

type_synonym message = "string \<times> fmt_arg list"

text \<open>The namespace \<open>parse_args\<close> returns (lines 73 to 80).\<close>

record opts =
  non_interactive :: bool
  timeout :: int
  user :: bool
  verbose :: nat
  docker :: bool

record response =
  status_code :: int
  content :: string
  json :: "string + pyval"

datatype process_end =
    Exited int string string
  | Expired
  | NotFound
  | Failed string

text \<open>Everything outside the script: what the network answers to a GET, whether a file
  can be opened and written, and how an external command ends (given the command, the
  timeout and whether its output is captured). \<open>Inl\<close> and \<open>Some\<close> name the exception
  the library raises.\<close>

record world =
  requests_get :: "string \<Rightarrow> string + response"
  open_wb :: "string \<Rightarrow> string option"
  file_write :: "string \<Rightarrow> string \<Rightarrow> string option"
  spawn :: "string list \<Rightarrow> int \<Rightarrow> bool \<Rightarrow> process_end"

text \<open>What a run does to the outside, in the order it happens: a line printed to
  \<open>sys.stdout\<close>, a line written to \<open>sys.stderr\<close>, a GET of a URL, an external
  command started.\<close>

datatype event =
    Stdout message
  | Stderr message
  | Get string
  | Run "string list"

text \<open>The state of a run. \<open>sigint = Some k\<close>: the operator's interrupt arrives when
  \<open>k\<close> more statements have begun; \<open>installed\<close>: line 53 has replaced Python's
  handler of the interrupt; \<open>delivered\<close>: the interrupt has arrived.
  \<open>lineno\<close> is the line \<open>main\<close> is at, which \<open>tb_lineno\<close> reads. \<open>trace\<close> holds
  the events so far, oldest first, and \<open>files\<close> the working directory.
  The last two fields say when \<open>sys.stdout\<close> fails: \<open>print_error s k = Some err\<close> when
  a write to it after \<open>k\<close> events raises \<open>err\<close>, \<open>flush_error\<close> the same for a flush.
  \<open>sys.stderr\<close> is taken to be writable.\<close>

record state =
  sigint :: "nat option"
  installed :: bool
  delivered :: bool
  lineno :: nat
  trace :: "event list"
  files :: "string \<rightharpoonup> string"
  print_error :: "nat \<Rightarrow> string option"
  flush_error :: "nat \<Rightarrow> string option"

definition emit :: "event \<Rightarrow> state \<Rightarrow> state" where
  "emit e s = s\<lparr>trace := trace s @ [e]\<rparr>"

type_synonym 'a io = "state \<Rightarrow> (exn + 'a) \<times> state"

definition ret :: "'a \<Rightarrow> 'a io" where
  "ret x s = (Inr x, s)"

definition raise :: "exn \<Rightarrow> 'a io" where
  "raise e s = (Inl e, s)"

definition seq :: "'a io \<Rightarrow> ('a \<Rightarrow> 'b io) \<Rightarrow> 'b io" where
  "seq m f s = (case m s of (Inl e, s') \<Rightarrow> (Inl e, s') | (Inr x, s') \<Rightarrow> f x s')"

text \<open>Line 53: \<open>signal.signal(signal.SIGINT, lambda ...: sys.exit(0))\<close>. The handler
  of an interrupt runs in the main thread when the next statement begins. Once line 53
  has run it raises \<open>SystemExit(0)\<close> there; before, Python's own handler raises
  \<open>KeyboardInterrupt\<close>.\<close>

definition signal_signal :: "unit io" where
  "signal_signal s = (Inr (), s\<lparr>installed := True\<rparr>)"

definition tick :: "'a io \<Rightarrow> 'a io" where
  "tick m s =
     (case sigint s of
        None \<Rightarrow> m s
      | Some 0 \<Rightarrow>
          (Inl (if installed s then SystemExit 0 else KeyboardInterrupt),
           s\<lparr>sigint := None, delivered := True\<rparr>)
      | Some (Suc k) \<Rightarrow> m (s\<lparr>sigint := Some k\<rparr>))"

text \<open>A statement of \<open>main\<close>, at its line.\<close>

definition stmt :: "nat \<Rightarrow> 'a io \<Rightarrow> 'a io" where
  "stmt l m = tick (\<lambda>s. m (s\<lparr>lineno := l\<rparr>))"

text \<open>\<open>print\<close> and \<open>sys.stdout.flush()\<close> raise the error of the stream, if there is
  one at this point.\<close>

definition print :: "message \<Rightarrow> unit io" where
  "print msg s =
     (case print_error s (length (trace s)) of
        Some err \<Rightarrow> (Inl (LibraryError err), s)
      | None \<Rightarrow> (Inr (), emit (Stdout msg) s))"

definition flush :: "unit io" where
  "flush s =
     (case flush_error s (length (trace s)) of
        Some err \<Rightarrow> (Inl (LibraryError err), s)
      | None \<Rightarrow> (Inr (), s))"

definition stderr_write :: "message \<Rightarrow> unit io" where
  "stderr_write msg s = (Inr (), emit (Stderr msg) s)"

definition sys_exit :: "int \<Rightarrow> 'a io" where
  "sys_exit c = raise (SystemExit c)"

section \<open>The script\<close>

definition RELEASE_INFO :: string where
  "RELEASE_INFO = ''https://api.github.com/repos/govready/govready-q/releases/latest''"

definition RELEASE_TAG_URL :: string where
  "RELEASE_TAG_URL = ''https://github.com/GovReady/govready-q/archive/refs/tags/''"

definition SPACER :: string where
  "SPACER = ''\<newline>====\<newline>''"

subsection \<open>Library calls\<close>

text \<open>\<open>requests.get(url)\<close>.\<close>

definition get :: "world \<Rightarrow> string \<Rightarrow> response io" where
  "get w url s =
     (case requests_get w url of
        Inl err \<Rightarrow> (Inl (LibraryError err), emit (Get url) s)
      | Inr r \<Rightarrow> (Inr r, emit (Get url) s))"

text \<open>\<open>r.json()\<close>.\<close>

definition json_of :: "response \<Rightarrow> pyval io" where
  "json_of r = (case json r of Inl err \<Rightarrow> raise (LibraryError err) | Inr v \<Rightarrow> ret v)"

text \<open>\<open>open(filename, "wb")\<close> creates the file or empties it; \<open>file.write(data)\<close>
  stores the data. When the write fails the file is left as \<open>open\<close> made it.\<close>

definition open_file :: "world \<Rightarrow> string \<Rightarrow> unit io" where
  "open_file w filename s =
     (case open_wb w filename of
        Some err \<Rightarrow> (Inl (LibraryError err), s)
      | None \<Rightarrow> (Inr (), s\<lparr>files := (files s)(filename \<mapsto> [])\<rparr>))"

definition write_file :: "world \<Rightarrow> string \<Rightarrow> string \<Rightarrow> unit io" where
  "write_file w filename data s =
     (case file_write w filename data of
        Some err \<Rightarrow> (Inl (LibraryError err), s)
      | None \<Rightarrow> (Inr (), s\<lparr>files := (files s)(filename \<mapsto> data)\<rparr>))"

text \<open>\<open>os.path.getsize(file)\<close> reads the length from the file system.\<close>

definition getsize :: "string \<Rightarrow> nat io" where
  "getsize filename s =
     (case files s filename of
        None \<Rightarrow> (Inl (FileNotFoundError filename), s)
      | Some data \<Rightarrow> (Inr (length data), s))"

text \<open>\<open>subprocess.run(cmd, timeout=secs)\<close>, with \<open>stdout=PIPE, stderr=PIPE\<close> when
  \<open>capture\<close> holds. With pipes \<open>communicate\<close> raises \<open>TimeoutExpired\<close> with the
  timeout it was given; without, \<open>Popen.wait\<close> raises it with the time that was left.\<close>

definition subprocess_run :: "world \<Rightarrow> string list \<Rightarrow> int \<Rightarrow> bool \<Rightarrow> completed_process io" where
  "subprocess_run w cmd secs capture s =
     (case spawn w cmd secs capture of
        Exited rc out err \<Rightarrow>
          (Inr \<lparr>args = cmd, returncode = rc,
                stdout = (if capture then Some out else None),
                stderr = (if capture then Some err else None)\<rparr>,
           emit (Run cmd) s)
      | Expired \<Rightarrow>
          (Inl (TimeoutExpired cmd (if capture then Seconds secs else Remaining secs)),
           emit (Run cmd) s)
      | NotFound \<Rightarrow>
          (Inl (FileNotFoundError (case cmd of [] \<Rightarrow> [] | c # _ \<Rightarrow> c)),
           emit (Run cmd) s)
      | Failed err \<Rightarrow> (Inl (LibraryError err), emit (Run cmd) s))"

text \<open>Reading a local variable that may not be bound yet.\<close>

definition load :: "string \<Rightarrow> 'a option \<Rightarrow> 'a io" where
  "load name v = (case v of None \<Rightarrow> raise (UnboundLocalError name) | Some x \<Rightarrow> ret x)"

text \<open>\<open>obj[key]\<close> for a string key: only a dict takes one.\<close>

fun subscript :: "pyval \<Rightarrow> string \<Rightarrow> pyval io" where
  "subscript (PDict kvs) key =
     (case map_of kvs key of None \<Rightarrow> raise (KeyError key) | Some v \<Rightarrow> ret v)"
| "subscript v key = raise TypeError"

text \<open>\<open>obj.split(sep)\<close>: only a str has the method.\<close>

fun split_method :: "pyval \<Rightarrow> char \<Rightarrow> string list io" where
  "split_method (PStr s) sep = ret (split s sep)"
| "split_method v sep = raise (AttributeError ''split'')"

text \<open>\<open>xs[-1]\<close> and \<open>xs[0]\<close>.\<close>

definition index_last :: "'a list \<Rightarrow> 'a io" where
  "index_last xs = (case xs of [] \<Rightarrow> raise IndexError | _ \<Rightarrow> ret (last xs))"

definition index_first :: "'a list \<Rightarrow> 'a io" where
  "index_first xs = (case xs of [] \<Rightarrow> raise IndexError | x # _ \<Rightarrow> ret x)"

text \<open>\<open>b.decode('UTF-8')\<close> on \<open>p.stdout\<close> or \<open>p.stderr\<close>, which is \<open>None\<close> when
  nothing was captured.\<close>

definition decode_method :: "string option \<Rightarrow> string io" where
  "decode_method b =
     (case b of
        None \<Rightarrow> raise (AttributeError ''decode'')
      | Some bytes \<Rightarrow>
          (case decode bytes of None \<Rightarrow> raise UnicodeDecodeError | Some text \<Rightarrow> ret text))"

subsection \<open>Helpers (lines 88 to 127)\<close>

definition run_optionally_verbose :: "world \<Rightarrow> string list \<Rightarrow> int \<Rightarrow> nat \<Rightarrow> completed_process io" where
  "run_optionally_verbose w cmd secs verbose_flag =
     (if verbose_flag \<noteq> 0 then
        seq (tick (ret ())) (\<lambda>start.
        seq (tick (subprocess_run w cmd secs False)) (\<lambda>p.
        seq (tick (print (''Elapsed time: {:1f} seconds.'', [AElapsed]))) (\<lambda>_.
        tick (ret p))))
      else
        seq (tick (subprocess_run w cmd secs True)) (\<lambda>p.
        tick (ret p)))"

definition local_name :: "string \<Rightarrow> string" where
  "local_name segment = ''govready-q-'' @ replace segment CHR '' '' CHR ''_''"

definition download :: "world \<Rightarrow> string \<Rightarrow> string io" where
  "download w url =
     seq (tick (index_last (split url CHR ''/''))) (\<lambda>segment.
     seq (tick (get w url)) (\<lambda>downloaded_obj.
     seq (tick (open_file w (local_name segment))) (\<lambda>_.
     seq (tick (write_file w (local_name segment) (content downloaded_obj))) (\<lambda>_.
     tick (ret (local_name segment))))))"

subsection \<open>The body of the loop (lines 153 to 191)\<close>

definition html_block :: "string \<Rightarrow> string \<Rightarrow> string \<Rightarrow> nat \<Rightarrow> string" where
  \<open>html_block release_name ext checksum nbytes =
     ''\<newline>            <tr>\<newline>'' @
     ''              <td class="release">'' @ release_name @ ''</td>\<newline>'' @
     ''              <td><a href="govready-q-'' @ release_name @ ext @ ''">govready-q-'' @
        release_name @ ext @ ''</a></td>\<newline>'' @
     ''              <td>'' @ checksum @ ''</td>\<newline>'' @
     ''              <td>'' @ str_nat nbytes @ '' MB</td>\<newline>'' @
     ''            </tr>\<newline>            ''\<close>

definition get_checksum :: "opts \<Rightarrow> string \<Rightarrow> string list" where
  "get_checksum cli file =
     (if user cli then [''shasum'', ''-a'', ''256'', ''--user'', file]
      else [''shasum'', ''-a'', ''256'', file])"

text \<open>Line 175: \<open>p.stdout.decode(encoding='UTF-8').split(" ")[0]\<close>.\<close>

definition checksum_of :: "completed_process \<Rightarrow> string io" where
  "checksum_of p =
     seq (decode_method (stdout p)) (\<lambda>text. index_first (split text CHR '' ''))"

definition loop_body :: "world \<Rightarrow> opts \<Rightarrow> string \<Rightarrow> string \<Rightarrow> unit io" where
  "loop_body w cli release_name ext =
     seq (stmt 155 (ret (RELEASE_TAG_URL @ release_name @ ext))) (\<lambda>url.
     seq (stmt 156 (print (''downloading '' @ url, []))) (\<lambda>_.
     seq (stmt 157 (download w url)) (\<lambda>file.
     seq (stmt 158 (print (''Downloaded '' @ file, []))) (\<lambda>_.
     seq (stmt 161 (getsize file)) (\<lambda>nbytes.
     seq (stmt 162 (print (''... filesize is '' @ str_nat nbytes @ ''.'', []))) (\<lambda>_.
     seq (stmt 165 (print (''Get checksum'', []))) (\<lambda>_.
     seq (stmt 166 (ret (get_checksum cli file))) (\<lambda>cmd.
     seq (stmt 171 (run_optionally_verbose w cmd (timeout cli) (verbose cli))) (\<lambda>p.
     seq (stmt 172 (if returncode p \<noteq> 0 then stmt 173 (raise (ReturncodeNonZeroError p))
                    else ret ())) (\<lambda>_.
     seq (stmt 175 (checksum_of p)) (\<lambda>checksum.
     seq (stmt 176 (print (''checksum is '' @ checksum, []))) (\<lambda>_.
     seq (stmt 177 flush) (\<lambda>_.
     seq (stmt 188 (print (html_block release_name ext checksum nbytes, []))) (\<lambda>_.
     stmt 191 (print (SPACER, []))))))))))))))))"

fun for_loop :: "('a \<Rightarrow> unit io) \<Rightarrow> 'a list \<Rightarrow> unit io" where
  "for_loop body [] = ret ()"
| "for_loop body (x # xs) = seq (stmt 153 (body x)) (\<lambda>_. for_loop body xs)"

subsection \<open>The \<open>try\<close> suite of \<open>main\<close> (lines 133 to 191)\<close>

text \<open>\<open>parse_args\<close> (lines 134 and 135) is outside the model: the namespace it returns
  is the parameter \<open>cli\<close>. \<open>release_info\<close> is bound only by line 140.\<close>

definition api_error :: "message" where
  "api_error = (''An error occurred while attempting to retrieve data from the API.'', [])"

definition release_info_of :: "response \<Rightarrow> pyval option io" where
  "release_info_of r =
     (if status_code r = 200 then
        seq (stmt 140 (json_of r)) (\<lambda>v.
        seq (stmt 141 (ret ())) (\<lambda>_. ret (Some v)))
      else
        seq (stmt 143 (print api_error)) (\<lambda>_. ret None))"

definition html_url :: "pyval option \<Rightarrow> pyval io" where
  "html_url release_info =
     seq (load ''release_info'' release_info) (\<lambda>info. subscript info ''html_url'')"

definition release_name_of :: "pyval option \<Rightarrow> string io" where
  "release_name_of release_info =
     seq (html_url release_info) (\<lambda>u.
     seq (split_method u CHR ''/'') index_last)"

definition main_try :: "world \<Rightarrow> opts \<Rightarrow> unit io" where
  "main_try w cli =
     seq (stmt 138 (get w RELEASE_INFO)) (\<lambda>r.
     seq (stmt 139 (release_info_of r)) (\<lambda>release_info.
     seq (stmt 146 (seq (html_url release_info)
                      (\<lambda>u. print (''release_info.html_url'', [AVal u])))) (\<lambda>_.
     seq (stmt 147 (print (SPACER, []))) (\<lambda>_.
     seq (stmt 149 (release_name_of release_info)) (\<lambda>release_name.
     seq (stmt 150 (print (''Getting release '' @ release_name, []))) (\<lambda>_.
     for_loop (loop_body w cli release_name) [''.zip'', ''.tar.gz'']))))))"

subsection \<open>The \<open>except\<close> clauses (lines 208 to 234)\<close>

definition xcrun_error :: string where
  "xcrun_error = ''xcrun: error: invalid active developer path (/Library/Developer/CommandLineTools), missing xcrun at: /Library/Developer/CommandLineTools/usr/bin/xcrun''"

text \<open>Line 214: \<open>p.stderr and '...' in p.stderr.decode('utf-8')\<close>.\<close>

definition xcrun_missing :: "completed_process \<Rightarrow> bool io" where
  "xcrun_missing p =
     (case stderr p of
        None \<Rightarrow> ret False
      | Some b \<Rightarrow>
          if b = [] then ret False
          else seq (decode_method (Some b)) (\<lambda>text. ret (contains text xcrun_error)))"

text \<open>The lines the clauses write to \<open>sys.stderr\<close>.\<close>

definition returncode_message :: "completed_process \<Rightarrow> message" where
  "returncode_message p =
     (''\<newline>\<newline>Fatal error, exiting: external program or script {} returned error code {}.\<newline>\<newline>'',
      [AList (args p), AInt (returncode p)])"

definition xcode_message :: "message" where
  "xcode_message =
     (''Suggested fix (see documentation): You need to do 'xcode-select --install'.\<newline>\<newline>'', [])"

definition timeout_message :: "string list \<Rightarrow> seconds \<Rightarrow> message" where
  "timeout_message cmd secs =
     (''\<newline>\<newline>Fatal error, exiting: external program or script {} took longer than {:.1f} seconds.\<newline>\<newline>'',
      [AList cmd, ASeconds secs])"

definition suggestion_message :: "int \<Rightarrow> message" where
  "suggestion_message secs =
     (''Suggested fix: run again with '--timeout {}'.\<newline>\<newline>'', [AInt secs])"

definition halted_message :: "string \<Rightarrow> message" where
  "halted_message err = (''\<newline>\<newline>Install halted because: {}.\<newline>\<newline>'', [AStr err])"

definition fatal_message :: "string \<Rightarrow> message" where
  "fatal_message err = (''\<newline>\<newline>Fatal error, exiting: {}.\<newline>\<newline>'', [AStr err])"

definition unrecognized_message :: "nat \<Rightarrow> exn \<Rightarrow> message" where
  \<open>unrecognized_message line err =
     (''\<newline>\<newline>Fatal error, exiting: unrecognized error on line {}, "{}".\<newline>\<newline>'',
      [AInt (int line), AExn err])\<close>

definition except_ReturncodeNonZeroError :: "completed_process \<Rightarrow> unit io" where
  "except_ReturncodeNonZeroError p =
     seq (stmt 210 (stderr_write (returncode_message p))) (\<lambda>_.
     seq (stmt 214 (xcrun_missing p)) (\<lambda>missing.
     seq (if missing then stmt 215 (stderr_write xcode_message) else ret ()) (\<lambda>_.
     stmt 216 (sys_exit 1))))"

definition except_TimeoutExpired :: "opts \<Rightarrow> string list \<Rightarrow> seconds \<Rightarrow> unit io" where
  "except_TimeoutExpired cli cmd secs =
     seq (stmt 219 (stderr_write (timeout_message cmd secs))) (\<lambda>_.
     seq (stmt 220 (stderr_write (suggestion_message (max (timeout cli + 120) 600)))) (\<lambda>_.
     stmt 221 (sys_exit 1)))"

definition except_HaltedError :: "string \<Rightarrow> unit io" where
  "except_HaltedError err =
     seq (stmt 224 (stderr_write (halted_message err))) (\<lambda>_.
     stmt 225 (sys_exit 1))"

definition except_FatalError :: "string \<Rightarrow> unit io" where
  "except_FatalError err =
     seq (stmt 228 (stderr_write (fatal_message err))) (\<lambda>_.
     stmt 229 (sys_exit 1))"

text \<open>\<open>sys.exc_info()[2].tb_lineno\<close> is the line of \<open>main\<close> the exception came from:
  \<open>lineno\<close> as the handler finds it.\<close>

definition except_Exception :: "exn \<Rightarrow> unit io" where
  "except_Exception err s =
     seq (stmt 233 (stderr_write (unrecognized_message (lineno s) err))) (\<lambda>_.
     stmt 234 (sys_exit 1)) s"

text \<open>The clauses in the order of the source; \<open>SystemExit\<close> and
  \<open>KeyboardInterrupt\<close> are no \<open>Exception\<close> and pass them all.\<close>

fun except :: "opts \<Rightarrow> exn \<Rightarrow> unit io" where
  "except cli (ReturncodeNonZeroError p) = except_ReturncodeNonZeroError p"
| "except cli (TimeoutExpired cmd secs) = except_TimeoutExpired cli cmd secs"
| "except cli (HaltedError err) = except_HaltedError err"
| "except cli (FatalError err) = except_FatalError err"
| "except cli (SystemExit c) = raise (SystemExit c)"
| "except cli KeyboardInterrupt = raise KeyboardInterrupt"
| "except cli err = except_Exception err"

definition banner :: "message" where
  "banner =
     (''>>>>>>>>>> Welcome to the GovReady-Q Release Publisher Assistant <<<<<<<<<\<newline>'', [])"

definition main :: "world \<Rightarrow> opts \<Rightarrow> unit io" where
  "main w cli =
     seq (stmt 130 (print banner))
       (\<lambda>_ s. case main_try w cli s of
                 (Inl err, s') \<Rightarrow> except cli err s'
               | (Inr u, s') \<Rightarrow> (Inr u, s'))"

text \<open>The statements of the module that have no effect on the model: the imports and
  constants before line 53, the class and function definitions after it.\<close>

fun pass :: "nat list \<Rightarrow> unit io" where
  "pass [] = ret ()"
| "pass (l # ls) = seq (stmt l (ret ())) (\<lambda>_. pass ls)"

definition script :: "world \<Rightarrow> opts \<Rightarrow> unit io" where
  "script w cli =
     seq (pass [29, 32, 33, 34, 35, 36, 37, 38, 39, 40, 41, 44, 47, 48, 49, 50]) (\<lambda>_.
     seq (stmt 53 signal_signal) (\<lambda>_.
     seq (pass [56, 60, 64, 73, 88, 98, 110, 118, 129, 236]) (\<lambda>_.
     stmt 237 (main w cli))))"

text \<open>Line 237, \<open>exit(main())\<close>, and the interpreter. \<open>main\<close> returns \<open>None\<close> and the
  status is 0; \<open>SystemExit(c)\<close> gives the status \<open>c\<close>; any other exception is printed
  as a traceback on \<open>sys.stderr\<close> and gives the status 1.
  Last, the interpreter flushes \<open>sys.stdout\<close>: when that fails the status is 120,
  whatever it was. After a \<open>KeyboardInterrupt\<close> the interpreter (3.8 and later) ends the
  process by the signal itself, and there is no exit status.\<close>

datatype ending =
    Status int
  | Signalled

definition traceback :: "exn \<Rightarrow> message" where
  "traceback err = (''Traceback (most recent call last):'', [AExn err])"

definition status :: "exn + unit \<Rightarrow> int" where
  "status r =
     (case r of
        Inr u \<Rightarrow> 0
      | Inl (SystemExit c) \<Rightarrow> c
      | Inl err \<Rightarrow> 1)"

definition excepthook :: "exn + unit \<Rightarrow> state \<Rightarrow> state" where
  "excepthook r s =
     (case r of
        Inr u \<Rightarrow> s
      | Inl (SystemExit c) \<Rightarrow> s
      | Inl err \<Rightarrow> emit (Stderr (traceback err)) s)"

definition finalize :: "exn + unit \<Rightarrow> state \<Rightarrow> ending" where
  "finalize r s =
     (if r = Inl KeyboardInterrupt then Signalled
      else if flush_error s (length (trace s)) = None then Status (status r)
      else Status 120)"

definition exit_status :: "world \<Rightarrow> opts \<Rightarrow> state \<Rightarrow> ending \<times> state" where
  "exit_status w cli s =
     (case script w cli s of
        (r, s') \<Rightarrow> (finalize r (excepthook r s'), excepthook r s'))"

section \<open>Notions of the specification\<close>

text \<open>The last \<open>'/'\<close>-delimited segment of a URL: what follows its last \<open>'/'\<close>, the
  whole of it when there is none.\<close>

definition last_segment :: "string \<Rightarrow> string" where
  "last_segment u = rev (takeWhile (\<lambda>c. c \<noteq> CHR ''/'') (rev u))"

text \<open>The substring before the first space character.\<close>

definition before_first_space :: "string \<Rightarrow> string" where
  "before_first_space text = takeWhile (\<lambda>c. c \<noteq> CHR '' '') text"

text \<open>The first whitespace-delimited token: skip the leading whitespace, read up to the
  next whitespace.\<close>

definition whitespace :: "char \<Rightarrow> bool" where
  "whitespace c = (c \<in> set [CHR '' '', CHR 0x09, CHR 0x0A, CHR 0x0B, CHR 0x0C, CHR 0x0D])"

definition first_token :: "string \<Rightarrow> string" where
  "first_token text = takeWhile (\<lambda>c. \<not> whitespace c) (dropWhile whitespace text)"

section \<open>Sample runs\<close>

definition initial :: state where
  "initial =
     \<lparr>sigint = None, installed = False, delivered = False, lineno = 0, trace = [],
      files = Map.empty, print_error = (\<lambda>k. None), flush_error = (\<lambda>k. None)\<rparr>"

definition shasum_output :: string where
  "shasum_output = ''abcd1234  govready-q-1.2.3.zip\<newline>''"

section \<open>Following a run\<close>

definition step :: "nat \<Rightarrow> event list \<Rightarrow> state \<Rightarrow> state" where
  "step l evs s = s\<lparr>lineno := l, trace := trace s @ evs\<rparr>"

definition elapsed :: "opts \<Rightarrow> event list" where
  "elapsed cli = (if verbose cli \<noteq> 0 then [Stdout (''Elapsed time: {:1f} seconds.'', [AElapsed])] else [])"

text \<open>What the \<open>TimeoutExpired\<close> of a command carries: the configured timeout in a
  quiet run, the time that was left of it in a verbose one.\<close>

definition expired :: "opts \<Rightarrow> seconds" where
  "expired cli = (if verbose cli = 0 then Seconds (timeout cli) else Remaining (timeout cli))"

definition completed :: "opts \<Rightarrow> string list \<Rightarrow> int \<Rightarrow> string \<Rightarrow> string \<Rightarrow> completed_process" where
  "completed cli cmd rc out err =
     \<lparr>args = cmd, returncode = rc,
      stdout = (if verbose cli = 0 then Some out else None),
      stderr = (if verbose cli = 0 then Some err else None)\<rparr>"

text \<open>\<open>sys.stdout\<close> can be written and flushed at every moment.\<close>

definition writable :: "state \<Rightarrow> bool" where
  "writable s \<longleftrightarrow>
     print_error s = (\<lambda>k. None) \<and> flush_error s = (\<lambda>k. None)"

definition saved :: "string \<Rightarrow> string \<Rightarrow> state \<Rightarrow> state" where
  "saved file data s = s\<lparr>files := (files s)(file \<mapsto> data)\<rparr>"

definition fetching :: "string \<Rightarrow> event list" where
  "fetching url = [Stdout (''downloading '' @ url, []), Get url]"

definition measuring :: "string \<Rightarrow> string \<Rightarrow> nat \<Rightarrow> string list \<Rightarrow> event list" where
  "measuring url file n cmd =
     fetching url @
     [Stdout (''Downloaded '' @ file, []),
      Stdout (''... filesize is '' @ str_nat n @ ''.'', []),
      Stdout (''Get checksum'', []),
      Run cmd]"

definition rendering :: "string \<Rightarrow> string \<Rightarrow> string \<Rightarrow> nat \<Rightarrow> event list" where
  "rendering release_name ext checksum n =
     [Stdout (''checksum is '' @ checksum, []),
      Stdout (html_block release_name ext checksum n, []),
      Stdout (SPACER, [])]"

fun after_run :: "string list \<Rightarrow> event list \<Rightarrow> event list option" where
  "after_run cmd [] = None"
| "after_run cmd (e # es) = (if e = Run cmd then Some es else after_run cmd es)"

fun printed :: "event list \<Rightarrow> message list" where
  "printed [] = []"
| "printed (Stdout m # es) = m # printed es"
| "printed (e # es) = printed es"

fun is_stderr :: "event \<Rightarrow> bool" where
  "is_stderr (Stderr m) = True"
| "is_stderr e = False"

definition explained :: "world \<Rightarrow> opts \<Rightarrow> exn + unit \<Rightarrow> nat \<Rightarrow> event list \<Rightarrow> bool" where
  "explained w cli r l ev =
     (\<forall>cmd rest. after_run cmd ev = Some rest \<longrightarrow>
        (case spawn w cmd (timeout cli) (verbose cli = 0) of
           Exited rc out err \<Rightarrow>
             if rc \<noteq> 0 then
               r = Inl (ReturncodeNonZeroError (completed cli cmd rc out err)) \<and> rest = elapsed cli
             else if verbose cli \<noteq> 0 then
               r = Inl (AttributeError ''decode'') \<and> l = 175 \<and> rest = elapsed cli
             else True
         | Expired \<Rightarrow> r = Inl (TimeoutExpired cmd (expired cli)) \<and> rest = []
         | NotFound \<Rightarrow> (\<exists>name. r = Inl (FileNotFoundError name)) \<and> rest = []
         | Failed err \<Rightarrow> r = Inl (LibraryError err) \<and> rest = []))"

definition resolving :: "pyval \<Rightarrow> string \<Rightarrow> event list" where
  "resolving u release_name =
     [Get RELEASE_INFO,
      Stdout (''release_info.html_url'', [AVal u]),
      Stdout (SPACER, []),
      Stdout (''Getting release '' @ release_name, [])]"

fun unclassified :: "exn \<Rightarrow> bool" where
  "unclassified (ReturncodeNonZeroError p) = False"
| "unclassified (TimeoutExpired cmd secs) = False"
| "unclassified (HaltedError err) = False"
| "unclassified (FatalError err) = False"
| "unclassified (SystemExit c) = False"
| "unclassified KeyboardInterrupt = False"
| "unclassified err = True"

text \<open>The state in which the \<open>try\<close> suite starts, in a run with no interrupt that can
  write to \<open>sys.stdout\<close>: line 53 has run and the banner is printed.\<close>

definition begun :: "state \<Rightarrow> state" where
  "begun s = s\<lparr>installed := True, lineno := 130, trace := trace s @ [Stdout banner]\<rparr>"

definition run_events :: "world \<Rightarrow> opts \<Rightarrow> state \<Rightarrow> event list" where
  "run_events w cli s = drop (length (trace s)) (trace (snd (exit_status w cli s)))"

definition sample_opts :: opts where
  "sample_opts = \<lparr>non_interactive = False, timeout = 120, user = False, verbose = 0, docker = False\<rparr>"

definition release_page :: response where
  "release_page =
     \<lparr>status_code = 200, content = [],
      json = Inr (PDict [(''html_url'', PStr ''https://github.com/x/y/releases/tag/1.2.3'')])\<rparr>"

definition archive :: response where
  "archive = \<lparr>status_code = 200, content = ''PK'', json = Inl ''JSONDecodeError''\<rparr>"

definition sample_world :: "process_end \<Rightarrow> world" where
  "sample_world outcome =
     \<lparr>requests_get = (\<lambda>url. Inr (if url = RELEASE_INFO then release_page else archive)),
      open_wb = (\<lambda>filename. None),
      file_write = (\<lambda>filename data. None),
      spawn = (\<lambda>cmd secs capture. outcome)\<rparr>"

definition zip_command :: "string list" where
  "zip_command = [''shasum'', ''-a'', ''256'', ''govready-q-1.2.3.zip'']"

definition sample_trace :: "event list" where
  "sample_trace =
     [Stdout banner] @ resolving (PStr ''https://github.com/x/y/releases/tag/1.2.3'') ''1.2.3''
       @ measuring (RELEASE_TAG_URL @ ''1.2.3.zip'') ''govready-q-1.2.3.zip'' (length ''PK'') zip_command"

definition verbose_opts :: opts where
  "verbose_opts = sample_opts\<lparr>verbose := 1\<rparr>"

definition interrupted_at :: "nat \<Rightarrow> state" where
  "interrupted_at k = initial\<lparr>sigint := Some k\<rparr>"

text \<open>A standard output that cannot be flushed, as when its reader has gone.\<close>

definition unflushable :: state where
  "unflushable = initial\<lparr>flush_error := (\<lambda>k. Some ''Broken pipe'')\<rparr>"


definition failed_process :: completed_process where
  "failed_process =
     \<lparr>args = zip_command, returncode = 1, stdout = Some [], stderr = Some ''shasum: boom''\<rparr>"

text \<open>The same state, with the interrupt arriving when \<open>i\<close> more statements have
  begun.\<close>

definition pending :: "nat \<Rightarrow> state \<Rightarrow> state" where
  "pending i s = s\<lparr>sigint := Some i\<rparr>"

text \<open>\<open>takes m s r s' n\<close>: from \<open>s\<close> the computation \<open>m\<close> begins \<open>n\<close> statements. An
  interrupt that arrives as one of them begins ends \<open>m\<close> there with \<open>SystemExit(0)\<close>;
  one that arrives later leaves \<open>m\<close> as it is without interrupt, with result \<open>r\<close> and
  state \<open>s'\<close>, and is still to come.\<close>

definition takes :: "'a io \<Rightarrow> state \<Rightarrow> exn + 'a \<Rightarrow> state \<Rightarrow> nat \<Rightarrow> bool" where
  "takes m s r s' n \<longleftrightarrow>
     (\<forall>i. (i < n \<longrightarrow>
             (\<exists>t. m (pending i s) = (Inl (SystemExit 0), t) \<and> delivered t \<and> sigint t = None
                \<and> flush_error t = flush_error s))
          \<and> (n \<le> i \<longrightarrow> m (pending i s) = (r, pending (i - n) s')))"

text \<open>\<open>steady m\<close>: once line 53 has run, \<open>m\<close> takes the interrupt at every statement it
  begins; without interrupt it raises no \<open>KeyboardInterrupt\<close> and no \<open>SystemExit\<close> but
  \<open>SystemExit(1)\<close>.\<close>

definition steady :: "'a io \<Rightarrow> bool" where
  "steady m \<longleftrightarrow>
     (\<forall>s r s'. sigint s = None \<longrightarrow> installed s \<longrightarrow> m s = (r, s') \<longrightarrow>
        sigint s' = None \<and> installed s' \<and> delivered s' = delivered s
        \<and> flush_error s' = flush_error s
        \<and> r \<noteq> Inl KeyboardInterrupt \<and> (\<forall>c. r = Inl (SystemExit c) \<longrightarrow> c = 1)
        \<and> (\<exists>n. takes m s r s' n))"

text \<open>A computation that never returns normally.\<close>

definition fatal :: "'a io \<Rightarrow> bool" where
  "fatal m = (\<forall>s r s'. m s = (r, s') \<longrightarrow> (\<exists>err. r = Inl err))"

text \<open>The script after line 53.\<close>

definition installed_script :: "world \<Rightarrow> opts \<Rightarrow> unit io" where
  "installed_script w cli =
     seq (pass [56, 60, 64, 73, 88, 98, 110, 118, 129, 236]) (\<lambda>_. stmt 237 (main w cli))"

definition finished :: process_end where
  "finished = Exited 0 shasum_output []"


fun fetched :: "event list \<Rightarrow> string list" where
  "fetched [] = []"
| "fetched (Get url # es) = url # fetched es"
| "fetched (e # es) = fetched es"

fun started :: "event list \<Rightarrow> string list list" where
  "started [] = []"
| "started (Run cmd # es) = cmd # started es"
| "started (e # es) = started es"

definition status_world :: "int \<Rightarrow> world" where
  "status_world code =
     \<lparr>requests_get = (\<lambda>url. Inr \<lparr>status_code = code, content = [], json = Inl ''JSONDecodeError''\<rparr>),
      open_wb = (\<lambda>filename. None),
      file_write = (\<lambda>filename data. None),
      spawn = (\<lambda>cmd secs capture. Exited 0 shasum_output [])\<rparr>"

text \<open>A standard output that fails at the third event of the run, after the banner and
  the request for the metadata.\<close>

definition muted :: state where
  "muted = initial\<lparr>print_error := (\<lambda>k. if k = 2 then Some ''Broken pipe'' else None)\<rparr>"

definition not_found :: response where
  "not_found = \<lparr>status_code = 404, content = ''Not Found'', json = Inl ''JSONDecodeError''\<rparr>"

definition world_404 :: world where
  "world_404 =
     \<lparr>requests_get = (\<lambda>url. Inr (if url = RELEASE_INFO then release_page else not_found)),
      open_wb = (\<lambda>filename. None),
      file_write = (\<lambda>filename data. None),
      spawn = (\<lambda>cmd secs capture. Exited 0 shasum_output [])\<rparr>"

definition zip_url :: string where
  "zip_url = RELEASE_TAG_URL @ ''1.2.3.zip''"

text \<open>C6 in the words of the specification: the base URL, then the release
  identifier, then the extension; and \<open>govready-q-\<close>, then the last path segment of the
  URL with every space replaced by an underscore.\<close>

definition download_url :: "string \<Rightarrow> string \<Rightarrow> string" where
  "download_url release_id ext = RELEASE_TAG_URL @ release_id @ ext"

definition local_file :: "string \<Rightarrow> string" where
  "local_file url =
     ''govready-q-'' @ map (\<lambda>c. if c = CHR '' '' then CHR ''_'' else c) (last_segment url)"

text \<open>The lines of line 176 on standard output.\<close>

definition checksum_line :: "message \<Rightarrow> bool" where
  "checksum_line m \<longleftrightarrow> prefix ''checksum is '' (fst m)"

text \<open>A standard output that cannot be written at all.\<close>

definition silenced :: state where
  "silenced = initial\<lparr>print_error := (\<lambda>k. Some ''Broken pipe'')\<rparr>"

section \<open>Splitting strings\<close>

lemma split_from_not_Nil: "split_from sep piece s \<noteq> []"
  by (induction s arbitrary: piece) auto

lemma split_not_Nil: "split s sep \<noteq> []"
  by (simp add: split_def split_from_not_Nil)

lemma hd_split_from:
  "hd (split_from sep piece s) = rev piece @ takeWhile (\<lambda>c. c \<noteq> sep) s"
  by (induction s arbitrary: piece) auto

lemma hd_split: "hd (split s sep) = takeWhile (\<lambda>c. c \<noteq> sep) s"
  by (simp add: split_def hd_split_from)

lemma last_split_from:
  "last (split_from sep piece s) =
     (if sep \<in> set s then rev (takeWhile (\<lambda>c. c \<noteq> sep) (rev s))
      else rev piece @ s)"
proof (induction s arbitrary: piece)
  case Nil
  then show ?case by simp
next
  case (Cons c cs)
  show ?case
  proof (cases "c = sep")
    case True
    then show ?thesis
      using Cons.IH [of "[]"] split_from_not_Nil [of sep "[]" cs]
      by (auto simp: takeWhile_append)
  next
    case False
    then show ?thesis
      using Cons.IH [of "c # piece"]
      by (auto simp: takeWhile_append)
  qed
qed

lemma last_split: "last (split s sep) = rev (takeWhile (\<lambda>c. c \<noteq> sep) (rev s))"
proof (cases "sep \<in> set s")
  case True
  then show ?thesis by (simp add: split_def last_split_from)
next
  case False
  then have "takeWhile (\<lambda>c. c \<noteq> sep) (rev s) = rev s"
    by (auto simp: takeWhile_eq_all_conv)
  then have tw: "rev (takeWhile (\<lambda>c. c \<noteq> sep) (rev s)) = s"
    by (simp only: rev_rev_ident)
  show ?thesis
    unfolding split_def last_split_from tw using False by simp
qed

lemma last_split_slash: "last (split u CHR ''/'') = last_segment u"
  by (simp add: last_split last_segment_def)

lemma index_last_split: "index_last (split u sep) = ret (last (split u sep))"
  using split_not_Nil [of u sep] by (cases "split u sep") (simp_all add: index_last_def)

lemma index_first_split: "index_first (split u sep) = ret (hd (split u sep))"
  using split_not_Nil [of u sep] by (cases "split u sep") (simp_all add: index_first_def)

lemma last_segment_no_slash: "CHR ''/'' \<notin> set (last_segment u)"
proof
  assume "CHR ''/'' \<in> set (last_segment u)"
  then have "CHR ''/'' \<in> set (takeWhile (\<lambda>c. c \<noteq> CHR ''/'') (rev u))"
    by (simp add: last_segment_def)
  from set_takeWhileD [OF this] show False by simp
qed

lemma last_segment_suffix:
  "\<exists>p. u = p @ last_segment u \<and> (p = [] \<or> last p = CHR ''/'')"
proof -
  let ?P = "\<lambda>c. c \<noteq> CHR ''/''"
  let ?d = "dropWhile ?P (rev u)"
  have "rev u = takeWhile ?P (rev u) @ ?d" by simp
  then have "rev (rev u) = rev (takeWhile ?P (rev u) @ ?d)" by (simp only:)
  then have u: "u = rev ?d @ last_segment u"
    by (simp only: rev_rev_ident rev_append last_segment_def)
  have "?d = [] \<or> hd ?d = CHR ''/''"
    using hd_dropWhile [of ?P "rev u"] by auto
  then have "rev ?d = [] \<or> last (rev ?d) = CHR ''/''"
    by (cases ?d) (simp_all add: last_rev)
  with u show ?thesis
    by (intro exI [of _ "rev ?d"] conjI)
qed

lemma last_segment_append:
  assumes "CHR ''/'' \<notin> set b" "a \<noteq> []" "last a = CHR ''/''"
  shows "last_segment (a @ b) = b"
proof -
  let ?P = "\<lambda>c. c \<noteq> CHR ''/''"
  from assms(2,3) obtain a' where a': "a = a' @ [CHR ''/'']"
    by (cases a rule: rev_cases) auto
  have 1: "takeWhile ?P (rev b @ rev a) = rev b @ takeWhile ?P (rev a)"
    using assms(1) by (intro takeWhile_append2) auto
  have 2: "takeWhile ?P (rev a) = []"
    unfolding a' by simp
  show ?thesis
    unfolding last_segment_def rev_append 1 2 by simp
qed

lemma first_token_hash:
  assumes "hash \<noteq> []" "\<forall>c\<in>set hash. \<not> whitespace c"
  shows "first_token (hash @ CHR '' '' # rest) = hash"
proof -
  from assms obtain h hs where h: "hash = h # hs" "\<not> whitespace h"
    by (cases hash) auto
  then have "dropWhile whitespace (hash @ CHR '' '' # rest) = hash @ CHR '' '' # rest"
    by simp
  moreover have "takeWhile (\<lambda>c. \<not> whitespace c) (hash @ CHR '' '' # rest) = hash"
    using assms(2) by (simp add: takeWhile_append2 whitespace_def)
  ultimately show ?thesis by (simp add: first_token_def)
qed

section \<open>The checksum (line 175)\<close>

lemma checksum_of_decoded:
  assumes "stdout p = Some b" "decode b = Some text"
  shows "checksum_of p s = (Inr (before_first_space text), s)"
  using assms
  by (simp add: checksum_of_def decode_method_def seq_def ret_def index_first_split hd_split
      before_first_space_def)

lemma before_first_space_hash:
  assumes "CHR '' '' \<notin> set hash"
  shows "before_first_space (hash @ CHR '' '' # rest) = hash"
  unfolding before_first_space_def using assms
  by (intro trans [OF takeWhile_append2]) auto

text \<open>C7. When the captured output of the checksum command is \<open>hash\<close>, a space and
  anything after it (the file name, the newline, more or less trailing whitespace), with
  \<open>hash\<close> a non-empty token free of whitespace, line 175 extracts \<open>hash\<close>: the
  substring of the decoded output before its first space, which is also its first
  whitespace-delimited token.\<close>

theorem checksum_is_first_token:
  assumes "stdout p = Some (hash @ CHR '' '' # rest)"
    and "valid_utf8 (map of_char (hash @ CHR '' '' # rest))"
    and "hash \<noteq> []" and "\<forall>c\<in>set hash. \<not> whitespace c"
  shows "checksum_of p s = (Inr hash, s)
    \<and> before_first_space (hash @ CHR '' '' # rest) = hash
    \<and> first_token (hash @ CHR '' '' # rest) = hash"
proof -
  from assms(4) have nospace: "CHR '' '' \<notin> set hash"
    by (auto simp: whitespace_def)
  have "decode (hash @ CHR '' '' # rest) = Some (hash @ CHR '' '' # rest)"
    using assms(2) by (simp add: decode_def)
  from checksum_of_decoded [OF assms(1) this]
  have "checksum_of p s = (Inr (before_first_space (hash @ CHR '' '' # rest)), s)" .
  then show ?thesis
    by (simp add: before_first_space_hash [OF nospace] first_token_hash [OF assms(3,4)])
qed

theorem checksum_is_first_token_witness:
  "checksum_of \<lparr>args = [''shasum'', ''-a'', ''256'', ''govready-q-1.2.3.zip''], returncode = 0,
      stdout = Some shasum_output, stderr = Some []\<rparr> initial = (Inr ''abcd1234'', initial)
   \<and> before_first_space shasum_output = ''abcd1234''
   \<and> first_token shasum_output = ''abcd1234''"
  using checksum_is_first_token [of
      "\<lparr>args = [''shasum'', ''-a'', ''256'', ''govready-q-1.2.3.zip''], returncode = 0,
        stdout = Some shasum_output, stderr = Some []\<rparr>"
      "''abcd1234''" "'' govready-q-1.2.3.zip\<newline>''" initial]
  by (simp add: shasum_output_def whitespace_def continuation_def)

lemma writableD [simp]:
  assumes "writable s"
  shows "print_error s k = None" and "flush_error s k = None"
  using assms by (simp_all add: writable_def)

lemma writable_update [simp]:
  "writable (s\<lparr>trace := t\<rparr>) = writable s"
  "writable (s\<lparr>lineno := l\<rparr>) = writable s"
  "writable (s\<lparr>files := f\<rparr>) = writable s"
  "writable (s\<lparr>sigint := i\<rparr>) = writable s"
  "writable (s\<lparr>installed := b\<rparr>) = writable s"
  "writable (s\<lparr>delivered := b\<rparr>) = writable s"
  by (simp_all add: writable_def)

lemma writable_step [simp]: "writable (step l evs s) = writable s"
  by (simp add: step_def)

lemma writable_emit [simp]: "writable (emit e s) = writable s"
  by (simp add: emit_def)

lemmas io_defs = seq_def tick_def stmt_def ret_def raise_def print_def stderr_write_def
  flush_def sys_exit_def emit_def get_def json_of_def open_file_def write_file_def getsize_def
  subprocess_run_def load_def decode_method_def

lemma download_quiet:
  assumes "sigint s = None"
  shows "download w url s =
     (case requests_get w url of
        Inl err \<Rightarrow> (Inl (LibraryError err), emit (Get url) s)
      | Inr r \<Rightarrow>
         (case open_wb w (local_name (last_segment url)) of
            Some err \<Rightarrow> (Inl (LibraryError err), emit (Get url) s)
          | None \<Rightarrow>
             (case file_write w (local_name (last_segment url)) (content r) of
                Some err \<Rightarrow> (Inl (LibraryError err),
                   (emit (Get url) s)\<lparr>files := (files s)(local_name (last_segment url) \<mapsto> [])\<rparr>)
              | None \<Rightarrow> (Inr (local_name (last_segment url)),
                   (emit (Get url) s)\<lparr>files := (files s)(local_name (last_segment url) \<mapsto> content r)\<rparr>))))"
  using assms
  by (simp add: download_def index_last_split last_split_slash io_defs
      split: sum.splits option.splits)

lemma run_optionally_verbose_quiet:
  assumes "sigint s = None" and "writable s"
  shows "run_optionally_verbose w cmd (timeout cli) (verbose cli) s =
     (case spawn w cmd (timeout cli) (verbose cli = 0) of
        Exited rc out err \<Rightarrow>
          (Inr (completed cli cmd rc out err), s\<lparr>trace := trace s @ Run cmd # elapsed cli\<rparr>)
      | Expired \<Rightarrow>
          (Inl (TimeoutExpired cmd (expired cli)), emit (Run cmd) s)
      | NotFound \<Rightarrow>
          (Inl (FileNotFoundError (case cmd of [] \<Rightarrow> [] | c # _ \<Rightarrow> c)), emit (Run cmd) s)
      | Failed err \<Rightarrow> (Inl (LibraryError err), emit (Run cmd) s))"
  using assms
  by (simp add: run_optionally_verbose_def io_defs elapsed_def completed_def expired_def
      split: process_end.splits)

lemma loop_body_quiet:
  assumes "sigint s = None" and "writable s"
  shows "loop_body w cli release_name ext s =
     (let url = RELEASE_TAG_URL @ release_name @ ext;
          file = local_name (last_segment url);
          cmd = get_checksum cli file
      in case requests_get w url of
        Inl err \<Rightarrow> (Inl (LibraryError err), step 157 (fetching url) s)
      | Inr r \<Rightarrow>
         (case open_wb w file of
            Some err \<Rightarrow> (Inl (LibraryError err), step 157 (fetching url) s)
          | None \<Rightarrow>
             (case file_write w file (content r) of
                Some err \<Rightarrow> (Inl (LibraryError err), saved file [] (step 157 (fetching url) s))
              | None \<Rightarrow>
                 (let n = length (content r);
                      s1 = saved file (content r) s
                  in case spawn w cmd (timeout cli) (verbose cli = 0) of
                    Expired \<Rightarrow>
                      (Inl (TimeoutExpired cmd (expired cli)),
                       step 171 (measuring url file n cmd) s1)
                  | NotFound \<Rightarrow>
                      (Inl (FileNotFoundError ''shasum''), step 171 (measuring url file n cmd) s1)
                  | Failed err \<Rightarrow>
                      (Inl (LibraryError err), step 171 (measuring url file n cmd) s1)
                  | Exited rc out err \<Rightarrow>
                      if rc \<noteq> 0 then
                        (Inl (ReturncodeNonZeroError (completed cli cmd rc out err)),
                         step 173 (measuring url file n cmd @ elapsed cli) s1)
                      else if verbose cli \<noteq> 0 then
                        (Inl (AttributeError ''decode''),
                         step 175 (measuring url file n cmd @ elapsed cli) s1)
                      else
                        (case decode out of
                           None \<Rightarrow>
                             (Inl UnicodeDecodeError, step 175 (measuring url file n cmd) s1)
                         | Some text \<Rightarrow>
                             (Inr (),
                              step 191 (measuring url file n cmd @
                                rendering release_name ext (before_first_space text) n) s1))))))"
  using assms
  by (simp add: loop_body_def download_quiet run_optionally_verbose_quiet
      checksum_of_def index_first_split hd_split before_first_space_def
      step_def saved_def fetching_def measuring_def rendering_def elapsed_def completed_def
      get_checksum_def Let_def io_defs
      split: sum.splits option.splits process_end.splits)

lemma after_run_append:
  "after_run cmd (xs @ ys) =
     (case after_run cmd xs of Some rest \<Rightarrow> Some (rest @ ys) | None \<Rightarrow> after_run cmd ys)"
  by (induction xs) auto

lemma after_run_stderr: "list_all is_stderr xs \<Longrightarrow> after_run cmd xs = None"
  by (induction xs) auto

lemma printed_stderr: "list_all is_stderr xs \<Longrightarrow> printed xs = []"
  by (induction xs rule: printed.induct) auto

lemma printed_append: "printed (xs @ ys) = printed xs @ printed ys"
  by (induction xs rule: printed.induct) auto

lemma after_run_fetching [simp]: "after_run cmd (fetching url) = None"
  by (simp add: fetching_def)

lemma after_run_elapsed [simp]: "after_run cmd (elapsed cli) = None"
  by (simp add: elapsed_def)

lemma after_run_rendering [simp]: "after_run cmd (rendering release_name ext checksum n) = None"
  by (simp add: rendering_def)

lemma after_run_measuring [simp]:
  "after_run cmd (measuring url file n cmd' @ rest) = (if cmd' = cmd then Some rest else after_run cmd rest)"
  by (simp add: measuring_def fetching_def)

lemma after_run_measuring' [simp]:
  "after_run cmd (measuring url file n cmd') = (if cmd' = cmd then Some [] else None)"
  by (simp add: measuring_def fetching_def)

lemma explained_no_run:
  assumes "\<And>cmd. after_run cmd ev = None"
  shows "explained w cli r l ev"
  using assms by (simp add: explained_def)

lemma explained_append:
  assumes "explained w cli (Inr ()) l1 ev1" and "explained w cli r l ev2"
  shows "explained w cli r l (ev1 @ ev2)"
  unfolding explained_def
proof (intro allI impI)
  fix cmd rest
  assume a: "after_run cmd (ev1 @ ev2) = Some rest"
  show "case spawn w cmd (timeout cli) (verbose cli = 0) of
           Exited rc out err \<Rightarrow>
             if rc \<noteq> 0 then
               r = Inl (ReturncodeNonZeroError (completed cli cmd rc out err)) \<and> rest = elapsed cli
             else if verbose cli \<noteq> 0 then
               r = Inl (AttributeError ''decode'') \<and> l = 175 \<and> rest = elapsed cli
             else True
         | Expired \<Rightarrow> r = Inl (TimeoutExpired cmd (expired cli)) \<and> rest = []
         | NotFound \<Rightarrow> (\<exists>name. r = Inl (FileNotFoundError name)) \<and> rest = []
         | Failed err \<Rightarrow> r = Inl (LibraryError err) \<and> rest = []"
  proof (cases "after_run cmd ev1")
    case None
    with a have "after_run cmd ev2 = Some rest" by (simp add: after_run_append)
    with assms(2) show ?thesis by (simp add: explained_def)
  next
    case (Some rest1)
    from assms(1) [unfolded explained_def, rule_format, OF Some] show ?thesis
      by (cases "spawn w cmd (timeout cli) (verbose cli = 0)") (simp_all split: if_splits)
  qed
qed

lemma loop_body_explained:
  assumes "sigint s = None" and "writable s" and "loop_body w cli release_name ext s = (r, s')"
  shows "sigint s' = None \<and> writable s'
    \<and> (\<exists>ev. trace s' = trace s @ ev \<and> explained w cli r (lineno s') ev)"
  using assms
  by (auto simp: loop_body_quiet Let_def step_def saved_def explained_def
      split: sum.splits option.splits process_end.splits if_splits)

lemma stmt_quiet: "sigint s = None \<Longrightarrow> stmt l m s = m (s\<lparr>lineno := l\<rparr>)"
  by (simp add: stmt_def tick_def)

lemma main_try_quiet:
  assumes "sigint s = None" and "writable s"
  shows "main_try w cli s =
     (case requests_get w RELEASE_INFO of
        Inl err \<Rightarrow> (Inl (LibraryError err), step 138 [Get RELEASE_INFO] s)
      | Inr r \<Rightarrow>
          if status_code r \<noteq> 200 then
            (Inl (UnboundLocalError ''release_info''),
             step 146 [Get RELEASE_INFO, Stdout api_error] s)
          else
            (case json r of
               Inl err \<Rightarrow> (Inl (LibraryError err), step 140 [Get RELEASE_INFO] s)
             | Inr (PDict kvs) \<Rightarrow>
                 (case map_of kvs ''html_url'' of
                    None \<Rightarrow> (Inl (KeyError ''html_url''), step 146 [Get RELEASE_INFO] s)
                  | Some (PStr u) \<Rightarrow>
                      for_loop (loop_body w cli (last_segment u)) [''.zip'', ''.tar.gz'']
                        (step 150 (resolving (PStr u) (last_segment u)) s)
                  | Some v \<Rightarrow>
                      (Inl (AttributeError ''split''),
                       step 149 [Get RELEASE_INFO, Stdout (''release_info.html_url'', [AVal v]),
                         Stdout (SPACER, [])] s))
             | Inr v \<Rightarrow> (Inl TypeError, step 146 [Get RELEASE_INFO] s)))"
  using assms
  by (simp add: main_try_def release_info_of_def html_url_def release_name_of_def
      index_last_split last_split_slash step_def resolving_def io_defs
      split: sum.splits option.splits pyval.splits)

lemma explained_Nil: "explained w cli r l []"
  by (simp add: explained_def)

lemma for_loop_explained:
  assumes "sigint s = None" and "writable s"
    and "for_loop (loop_body w cli release_name) exts s = (r, s')"
  shows "sigint s' = None \<and> writable s'
    \<and> (\<exists>ev. trace s' = trace s @ ev \<and> explained w cli r (lineno s') ev)"
  using assms
proof (induction exts arbitrary: s)
  case Nil
  then show ?case by (auto simp: ret_def explained_Nil)
next
  case (Cons ext exts)
  let ?s0 = "s\<lparr>lineno := 153\<rparr>"
  obtain r1 s1 where body: "loop_body w cli release_name ext ?s0 = (r1, s1)"
    by (cases "loop_body w cli release_name ext ?s0")
  from Cons.prems(1,2) have quiet: "sigint ?s0 = None" "writable ?s0" by simp_all
  from loop_body_explained [OF quiet body]
  obtain ev1 where s1: "sigint s1 = None" "writable s1" "trace s1 = trace s @ ev1"
    and ex1: "explained w cli r1 (lineno s1) ev1"
    by auto
  show ?case
  proof (cases r1)
    case (Inl e)
    with Cons.prems body have "r = Inl e" "s' = s1"
      by (simp_all add: stmt_quiet seq_def)
    with s1 ex1 Inl show ?thesis by auto
  next
    case (Inr u)
    with Cons.prems body have rest: "for_loop (loop_body w cli release_name) exts s1 = (r, s')"
      by (simp add: stmt_quiet seq_def)
    from Cons.IH [OF s1(1,2) rest]
    obtain ev2 where s2: "sigint s' = None" "writable s'" "trace s' = trace s1 @ ev2"
      and ex2: "explained w cli r (lineno s') ev2"
      by auto
    from ex1 Inr have "explained w cli (Inr ()) (lineno s1) ev1" by simp
    from explained_append [OF this ex2] s1 s2 show ?thesis by auto
  qed
qed

lemma after_run_resolving [simp]: "after_run cmd (resolving u release_name) = None"
  by (simp add: resolving_def)

lemma explained_after:
  assumes "\<And>cmd. after_run cmd ev0 = None" and "explained w cli r l ev"
  shows "explained w cli r l (ev0 @ ev)"
  using assms by (simp add: explained_def after_run_append)

lemma main_try_explained:
  assumes "sigint s = None" and "writable s" and "main_try w cli s = (r, s')"
  shows "sigint s' = None \<and> writable s'
    \<and> (\<exists>ev. trace s' = trace s @ ev \<and> explained w cli r (lineno s') ev)"
proof (cases "\<exists>resp u. requests_get w RELEASE_INFO = Inr resp \<and> status_code resp = 200
    \<and> (\<exists>kvs. json resp = Inr (PDict kvs) \<and> map_of kvs ''html_url'' = Some (PStr u))")
  case True
  then obtain resp u kvs where "requests_get w RELEASE_INFO = Inr resp" "status_code resp = 200"
    "json resp = Inr (PDict kvs)" "map_of kvs ''html_url'' = Some (PStr u)"
    by blast
  with assms have loop: "for_loop (loop_body w cli (last_segment u)) [''.zip'', ''.tar.gz'']
      (step 150 (resolving (PStr u) (last_segment u)) s) = (r, s')"
    by (simp add: main_try_quiet)
  from assms(1,2) have "sigint (step 150 (resolving (PStr u) (last_segment u)) s) = None"
    "writable (step 150 (resolving (PStr u) (last_segment u)) s)"
    by (simp_all add: step_def)
  from for_loop_explained [OF this loop]
  obtain ev where "sigint s' = None" "writable s'"
    "trace s' = trace s @ resolving (PStr u) (last_segment u) @ ev"
    "explained w cli r (lineno s') ev"
    by (auto simp: step_def)
  then show ?thesis
    using explained_after [of "resolving (PStr u) (last_segment u)" w cli r "lineno s'" ev]
    by auto
next
  case False
  with assms show ?thesis
    by (auto simp: main_try_quiet step_def explained_def
        split: sum.splits option.splits pyval.splits if_splits)
qed

lemma except_ReturncodeNonZeroError_quiet:
  assumes "sigint s = None"
  shows "except_ReturncodeNonZeroError p s =
     (case stderr p of
        None \<Rightarrow> (Inl (SystemExit 1), step 216 [Stderr (returncode_message p)] s)
      | Some b \<Rightarrow>
          if b = [] then (Inl (SystemExit 1), step 216 [Stderr (returncode_message p)] s)
          else
            (case decode b of
               None \<Rightarrow> (Inl UnicodeDecodeError, step 214 [Stderr (returncode_message p)] s)
             | Some text \<Rightarrow>
                 if contains text xcrun_error then
                   (Inl (SystemExit 1),
                    step 216 [Stderr (returncode_message p), Stderr xcode_message] s)
                 else (Inl (SystemExit 1), step 216 [Stderr (returncode_message p)] s)))"
  using assms
  by (simp add: except_ReturncodeNonZeroError_def xcrun_missing_def step_def io_defs
      split: option.splits)

lemma except_TimeoutExpired_quiet:
  assumes "sigint s = None"
  shows "except_TimeoutExpired cli cmd secs s =
     (Inl (SystemExit 1),
      step 221 [Stderr (timeout_message cmd secs),
        Stderr (suggestion_message (max (timeout cli + 120) 600))] s)"
  using assms by (simp add: except_TimeoutExpired_def step_def io_defs)

lemma except_HaltedError_quiet:
  assumes "sigint s = None"
  shows "except_HaltedError err s = (Inl (SystemExit 1), step 225 [Stderr (halted_message err)] s)"
  using assms by (simp add: except_HaltedError_def step_def io_defs)

lemma except_FatalError_quiet:
  assumes "sigint s = None"
  shows "except_FatalError err s = (Inl (SystemExit 1), step 229 [Stderr (fatal_message err)] s)"
  using assms by (simp add: except_FatalError_def step_def io_defs)

lemma except_Exception_quiet:
  assumes "sigint s = None"
  shows "except_Exception err s =
     (Inl (SystemExit 1), step 234 [Stderr (unrecognized_message (lineno s) err)] s)"
  using assms by (simp add: except_Exception_def step_def io_defs)

lemma except_unclassified:
  assumes "unclassified err"
  shows "except cli err = except_Exception err"
  using assms by (cases err) simp_all

lemma main_quiet:
  assumes "sigint s = None" and "writable s"
  shows "main w cli s =
     (case main_try w cli (step 130 [Stdout banner] s) of
        (Inl err, s') \<Rightarrow> except cli err s'
      | (Inr u, s') \<Rightarrow> (Inr u, s'))"
  using assms by (simp add: main_def step_def io_defs)

lemma pass_quiet:
  assumes "sigint s = None"
  shows "pass ls s = (Inr (), s\<lparr>lineno := last (lineno s # ls)\<rparr>)"
  using assms by (induction ls arbitrary: s) (simp_all add: io_defs)

lemma script_quiet:
  assumes "sigint s = None" and "writable s"
  shows "script w cli s =
     (case main_try w cli (begun s) of
        (Inl err, s') \<Rightarrow> except cli err s'
      | (Inr u, s') \<Rightarrow> (Inr u, s'))"
  using assms
  by (simp add: script_def pass_quiet seq_def stmt_quiet signal_signal_def main_quiet
      step_def begun_def del: pass.simps)

lemma begun_simps [simp]:
  "sigint (begun s) = sigint s" "writable (begun s) = writable s"
  "delivered (begun s) = delivered s" "files (begun s) = files s"
  "trace (begun s) = trace s @ [Stdout banner]" "installed (begun s)"
  by (simp_all add: begun_def writable_def)

lemma main_try_from_banner:
  assumes "sigint s = None" and "writable s" and "main_try w cli (begun s) = (r, s1)"
  shows "sigint s1 = None \<and> writable s1
    \<and> (\<exists>ev. trace s1 = trace s @ Stdout banner # ev \<and> explained w cli r (lineno s1) ev)"
proof -
  from assms(1,2) have "sigint (begun s) = None" "writable (begun s)" by simp_all
  from main_try_explained [OF this assms(3)] show ?thesis by auto
qed

lemma exit_status_returns:
  assumes "sigint s = None" and "writable s" and "main_try w cli (begun s) = (Inr u, s1)"
  shows "exit_status w cli s = (Status 0, s1)"
proof -
  from main_try_from_banner [OF assms] have "writable s1" by simp
  with assms show ?thesis
    by (simp add: exit_status_def script_quiet excepthook_def finalize_def status_def)
qed


lemma exit_status_timeout:
  assumes "sigint s = None" and "writable s"
    and "main_try w cli (begun s) = (Inl (TimeoutExpired cmd secs), s1)"
  shows "exit_status w cli s =
     (Status 1, step 221 [Stderr (timeout_message cmd secs),
           Stderr (suggestion_message (max (timeout cli + 120) 600))] s1)"
proof -
  from main_try_from_banner [OF assms] have "sigint s1 = None" "writable s1" by simp_all
  with assms show ?thesis
    by (simp add: exit_status_def script_quiet except_TimeoutExpired_quiet excepthook_def
        finalize_def status_def)
qed

lemma exit_status_unclassified:
  assumes "sigint s = None" and "writable s"
    and "main_try w cli (begun s) = (Inl err, s1)" and "unclassified err"
  shows "exit_status w cli s =
     (Status 1, step 234 [Stderr (unrecognized_message (lineno s1) err)] s1)"
proof -
  from main_try_from_banner [OF assms(1,2,3)] have "sigint s1 = None" "writable s1" by simp_all
  with assms show ?thesis
    by (simp add: exit_status_def script_quiet except_unclassified except_Exception_quiet
        excepthook_def finalize_def status_def)
qed

lemma exit_status_stderr:
  assumes "sigint s = None" and "writable s" and "main_try w cli (begun s) = (r, s1)"
  shows "\<exists>hev. trace (snd (exit_status w cli s)) = trace s1 @ hev \<and> list_all is_stderr hev"
proof -
  from main_try_from_banner [OF assms] have quiet: "sigint s1 = None" by simp
  show ?thesis
  proof (cases r)
    case (Inr u)
    with assms show ?thesis by (simp add: exit_status_def script_quiet excepthook_def)
  next
    case (Inl err)
    with assms quiet show ?thesis
      by (cases err)
        (simp_all add: exit_status_def script_quiet except_ReturncodeNonZeroError_quiet
          except_TimeoutExpired_quiet except_HaltedError_quiet except_FatalError_quiet
          except_Exception_quiet step_def emit_def raise_def excepthook_def
          split: option.splits)
  qed
qed

lemma run_events_quiet:
  assumes "sigint s = None" and "writable s" and "main_try w cli (begun s) = (r, s1)"
  shows "\<exists>ev hev. run_events w cli s = Stdout banner # ev @ hev
    \<and> trace s1 = trace s @ Stdout banner # ev
    \<and> trace (snd (exit_status w cli s)) = trace s1 @ hev
    \<and> list_all is_stderr hev \<and> explained w cli r (lineno s1) ev"
proof -
  from main_try_from_banner [OF assms]
  obtain ev where ev: "trace s1 = trace s @ Stdout banner # ev" "explained w cli r (lineno s1) ev"
    by auto
  from exit_status_stderr [OF assms]
  obtain hev where hev: "trace (snd (exit_status w cli s)) = trace s1 @ hev" "list_all is_stderr hev"
    by auto
  from ev(1) hev(1) have "run_events w cli s = Stdout banner # ev @ hev"
    by (simp add: run_events_def)
  with ev hev show ?thesis by blast
qed

lemma after_run_events:
  assumes "sigint s = None" and "writable s" and "main_try w cli (begun s) = (r, s1)"
    and "after_run cmd (run_events w cli s) = Some rest"
  shows "\<exists>ev hev rest'. rest = rest' @ hev \<and> after_run cmd ev = Some rest'
    \<and> trace (snd (exit_status w cli s)) = trace s1 @ hev
    \<and> list_all is_stderr hev \<and> explained w cli r (lineno s1) ev"
proof -
  from run_events_quiet [OF assms(1,2,3)]
  obtain ev hev where run: "run_events w cli s = Stdout banner # ev @ hev"
    and hev: "trace (snd (exit_status w cli s)) = trace s1 @ hev" "list_all is_stderr hev"
    and ex: "explained w cli r (lineno s1) ev"
    by blast
  from assms(4) run have "after_run cmd (ev @ hev) = Some rest" by simp
  with after_run_stderr [OF hev(2), of cmd]
  obtain rest' where "after_run cmd ev = Some rest'" "rest = rest' @ hev"
    by (auto simp: after_run_append split: option.splits)
  with hev ex show ?thesis by blast
qed



lemma sample_release: "last_segment ''https://github.com/x/y/releases/tag/1.2.3'' = ''1.2.3''"
  by (simp add: last_segment_def)

lemma sample_zip_file:
  "local_name (last_segment (RELEASE_TAG_URL @ ''1.2.3.zip'')) = ''govready-q-1.2.3.zip''"
  by (simp add: last_segment_def RELEASE_TAG_URL_def local_name_def replace_def)

lemma sample_zip_fetch: "requests_get (sample_world outcome) (RELEASE_TAG_URL @ ''1.2.3.zip'') = Inr archive"
  by (simp add: sample_world_def RELEASE_TAG_URL_def RELEASE_INFO_def)

lemma sample_info_fetch: "requests_get (sample_world outcome) RELEASE_INFO = Inr release_page"
  by (simp add: sample_world_def)

lemma sample_world_simps:
  "open_wb (sample_world outcome) filename = None"
  "file_write (sample_world outcome) filename data = None"
  "spawn (sample_world outcome) cmd secs capture = outcome"
  by (simp_all add: sample_world_def)

lemma sample_opts_simps:
  "timeout sample_opts = 120" "verbose sample_opts = 0" "user sample_opts = False"
  by (simp_all add: sample_opts_def)

lemma initial_quiet: "sigint initial = None"
  by (simp add: initial_def)

lemma initial_writable: "writable initial"
  by (simp add: initial_def writable_def)

lemma verbose_opts_simps:
  "timeout verbose_opts = 120" "verbose verbose_opts = 1" "user verbose_opts = False"
  by (simp_all add: verbose_opts_def sample_opts_def)

lemma after_run_sample_trace: "after_run zip_command (sample_trace @ rest) = Some rest"
  by (simp add: sample_trace_def resolving_def after_run_append)




lemma sample_try_expired_verbose:
  "main_try (sample_world Expired) verbose_opts (begun initial) =
     (Inl (TimeoutExpired zip_command (Remaining 120)),
      initial\<lparr>installed := True, lineno := 171, trace := sample_trace,
        files := [''govready-q-1.2.3.zip'' \<mapsto> ''PK'']\<rparr>)"
  by (simp add: main_try_quiet loop_body_quiet stmt_quiet seq_def step_def initial_def begun_def
      sample_release sample_zip_file sample_zip_fetch sample_info_fetch sample_world_simps
      saved_def Let_def release_page_def archive_def verbose_opts_simps get_checksum_def
      zip_command_def sample_trace_def expired_def writable_def)

lemma sample_events_expired_verbose:
  "run_events (sample_world Expired) verbose_opts initial =
     sample_trace @ [Stderr (timeout_message zip_command (Remaining 120)), Stderr (suggestion_message 600)]"
  using exit_status_timeout [OF initial_quiet initial_writable sample_try_expired_verbose]
  by (simp add: run_events_def step_def verbose_opts_simps initial_def)

lemmas run_defs = exit_status_def script_def main_def main_try_def release_info_of_def
  html_url_def release_name_of_def loop_body_def download_def run_optionally_verbose_def
  except_TimeoutExpired_def except_ReturncodeNonZeroError_def xcrun_missing_def
  excepthook_def finalize_def status_def signal_signal_def




lemma completed_failed: "completed sample_opts zip_command 1 [] ''shasum: boom'' = failed_process"
  by (simp add: completed_def failed_process_def sample_opts_simps)

lemma elapsed_sample: "elapsed sample_opts = []"
  by (simp add: elapsed_def sample_opts_simps)







lemma pending_simps [simp]:
  "sigint (pending i s) = Some i" "installed (pending i s) = installed s"
  "delivered (pending i s) = delivered s" "flush_error (pending i s) = flush_error s"
  "print_error (pending i s) = print_error s" "trace (pending i s) = trace s"
  "lineno (pending i s) = lineno s" "files (pending i s) = files s"
  by (simp_all add: pending_def)

lemma steadyD:
  assumes "steady m" and "sigint s = None" and "installed s" and "m s = (r, s')"
  shows "sigint s' = None" and "installed s'" and "delivered s' = delivered s"
    and "flush_error s' = flush_error s"
    and "r \<noteq> Inl KeyboardInterrupt" and "r = Inl (SystemExit c) \<Longrightarrow> c = 1"
    and "\<exists>n. takes m s r s' n"
  using assms(1) [unfolded steady_def, rule_format, OF assms(2,3,4)] by simp_all

lemma steadyI:
  assumes "\<And>s r s'. sigint s = None \<Longrightarrow> installed s \<Longrightarrow> m s = (r, s') \<Longrightarrow>
      sigint s' = None \<and> installed s' \<and> delivered s' = delivered s
      \<and> flush_error s' = flush_error s
      \<and> r \<noteq> Inl KeyboardInterrupt \<and> (\<forall>c. r = Inl (SystemExit c) \<longrightarrow> c = 1)
      \<and> (\<exists>n. takes m s r s' n)"
  shows "steady m"
  unfolding steady_def using assms by blast

lemma takesD:
  assumes "takes m s r s' n"
  shows "i < n \<Longrightarrow> \<exists>t. m (pending i s) = (Inl (SystemExit 0), t) \<and> delivered t
      \<and> sigint t = None \<and> flush_error t = flush_error s"
    and "n \<le> i \<Longrightarrow> m (pending i s) = (r, pending (i - n) s')"
  using assms by (simp_all add: takes_def)

lemma takes_seq_raise:
  assumes "takes m s (Inl e) s1 n"
  shows "takes (seq m f) s (Inl e) s1 n"
  unfolding takes_def
proof (intro allI conjI impI)
  fix i assume "i < n"
  from takesD(1) [OF assms this] show "\<exists>t. seq m f (pending i s) = (Inl (SystemExit 0), t)
      \<and> delivered t \<and> sigint t = None \<and> flush_error t = flush_error s"
    by (auto simp: seq_def)
next
  fix i assume "n \<le> i"
  from takesD(2) [OF assms this] show "seq m f (pending i s) = (Inl e, pending (i - n) s1)"
    by (simp add: seq_def)
qed

lemma takes_seq_return:
  assumes "takes m s (Inr x) s1 n1" and "takes (f x) s1 r s' n2"
    and "flush_error s1 = flush_error s"
  shows "takes (seq m f) s r s' (n1 + n2)"
  unfolding takes_def
proof (intro allI conjI impI)
  fix i assume i: "i < n1 + n2"
  show "\<exists>t. seq m f (pending i s) = (Inl (SystemExit 0), t)
      \<and> delivered t \<and> sigint t = None \<and> flush_error t = flush_error s"
  proof (cases "i < n1")
    case True
    from takesD(1) [OF assms(1) this] show ?thesis by (auto simp: seq_def)
  next
    case False
    then have "n1 \<le> i" by simp
    from takesD(2) [OF assms(1) this]
    have 1: "seq m f (pending i s) = f x (pending (i - n1) s1)" by (simp add: seq_def)
    from i False have "i - n1 < n2" by simp
    from takesD(1) [OF assms(2) this] assms(3) show ?thesis unfolding 1 by simp
  qed
next
  fix i assume i: "n1 + n2 \<le> i"
  then have "n1 \<le> i" by simp
  from takesD(2) [OF assms(1) this]
  have 1: "seq m f (pending i s) = f x (pending (i - n1) s1)" by (simp add: seq_def)
  from i have "n2 \<le> i - n1" by simp
  from takesD(2) [OF assms(2) this] show "seq m f (pending i s) = (r, pending (i - (n1 + n2)) s')"
    unfolding 1 by simp
qed

lemma steady_seq:
  assumes "steady m" and "\<And>x. steady (f x)"
  shows "steady (seq m f)"
proof (rule steadyI)
  fix s r s'
  assume q: "sigint s = None" "installed s" and run: "seq m f s = (r, s')"
  obtain r1 s1 where m: "m s = (r1, s1)" by (cases "m s")
  note 1 = steadyD [OF assms(1) q m]
  from 1(7) obtain n1 where n1: "takes m s r1 s1 n1" by blast
  show "sigint s' = None \<and> installed s' \<and> delivered s' = delivered s
      \<and> flush_error s' = flush_error s
      \<and> r \<noteq> Inl KeyboardInterrupt \<and> (\<forall>c. r = Inl (SystemExit c) \<longrightarrow> c = 1)
      \<and> (\<exists>n. takes (seq m f) s r s' n)"
  proof (cases r1)
    case (Inl e)
    with run m have r: "r = Inl e" "s' = s1" by (simp_all add: seq_def)
    from takes_seq_raise [OF n1 [unfolded Inl]] have "\<exists>n. takes (seq m f) s r s' n"
      unfolding r by blast
    with 1 Inl r show ?thesis by simp
  next
    case (Inr x)
    with run m have f: "f x s1 = (r, s')" by (simp add: seq_def)
    note 2 = steadyD [OF assms(2) 1(1,2) f]
    from 2(7) obtain n2 where n2: "takes (f x) s1 r s' n2" by blast
    from takes_seq_return [where f = f and x = x, OF n1 [unfolded Inr] n2 1(4)]
    have "\<exists>n. takes (seq m f) s r s' n" by blast
    with 1 2 show ?thesis by simp
  qed
qed

lemma takes_tick:
  assumes "takes m s r s' n" and "sigint s = None" and "installed s"
  shows "takes (tick m) s r s' (Suc n)"
  unfolding takes_def
proof (intro allI conjI impI)
  fix i assume i: "i < Suc n"
  show "\<exists>t. tick m (pending i s) = (Inl (SystemExit 0), t)
      \<and> delivered t \<and> sigint t = None \<and> flush_error t = flush_error s"
  proof (cases i)
    case 0
    with assms(3) show ?thesis by (simp add: tick_def pending_def)
  next
    case (Suc k)
    with i have "k < n" by simp
    from takesD(1) [OF assms(1) this] Suc show ?thesis by (simp add: tick_def pending_def)
  qed
next
  fix i assume i: "Suc n \<le> i"
  then obtain k where k: "i = Suc k" "n \<le> k" by (cases i) simp_all
  from takesD(2) [OF assms(1) k(2)] k(1)
  show "tick m (pending i s) = (r, pending (i - Suc n) s')"
    by (simp add: tick_def pending_def)
qed

lemma steady_tick:
  assumes "steady m"
  shows "steady (tick m)"
proof (rule steadyI)
  fix s r s'
  assume q: "sigint s = None" "installed s" and run: "tick m s = (r, s')"
  then have m: "m s = (r, s')" by (simp add: tick_def)
  note 1 = steadyD [OF assms q m]
  from 1(7) obtain n where "takes m s r s' n" by blast
  from takes_tick [OF this q] have "\<exists>n. takes (tick m) s r s' n" by blast
  with 1 show "sigint s' = None \<and> installed s' \<and> delivered s' = delivered s
      \<and> flush_error s' = flush_error s
      \<and> r \<noteq> Inl KeyboardInterrupt \<and> (\<forall>c. r = Inl (SystemExit c) \<longrightarrow> c = 1)
      \<and> (\<exists>n. takes (tick m) s r s' n)"
    by simp
qed

lemma steady_at_line:
  assumes "steady m"
  shows "steady (\<lambda>s. m (s\<lparr>lineno := l\<rparr>))"
proof (rule steadyI)
  fix s r s'
  assume q: "sigint s = None" "installed s" and run: "m (s\<lparr>lineno := l\<rparr>) = (r, s')"
  from q have q': "sigint (s\<lparr>lineno := l\<rparr>) = None" "installed (s\<lparr>lineno := l\<rparr>)" by simp_all
  note 1 = steadyD [OF assms q' run]
  have eq: "(pending i s)\<lparr>lineno := l\<rparr> = pending i (s\<lparr>lineno := l\<rparr>)" for i
    by (simp add: pending_def)
  from 1(7) obtain n where "takes m (s\<lparr>lineno := l\<rparr>) r s' n" by blast
  then have "takes (\<lambda>s. m (s\<lparr>lineno := l\<rparr>)) s r s' n"
    by (simp add: takes_def eq)
  then have "\<exists>n. takes (\<lambda>s. m (s\<lparr>lineno := l\<rparr>)) s r s' n" by blast
  with 1 show "sigint s' = None \<and> installed s' \<and> delivered s' = delivered s
      \<and> flush_error s' = flush_error s
      \<and> r \<noteq> Inl KeyboardInterrupt \<and> (\<forall>c. r = Inl (SystemExit c) \<longrightarrow> c = 1)
      \<and> (\<exists>n. takes (\<lambda>s. m (s\<lparr>lineno := l\<rparr>)) s r s' n)"
    by simp
qed

lemma steady_stmt: "steady m \<Longrightarrow> steady (stmt l m)"
  unfolding stmt_def by (intro steady_tick steady_at_line)

text \<open>A computation that begins no statement of its own.\<close>

lemma steady_plain:
  assumes "\<And>s i. m (s\<lparr>sigint := i\<rparr>) = (case m s of (r, s') \<Rightarrow> (r, s'\<lparr>sigint := i\<rparr>))"
    and "\<And>s r s'. m s = (r, s') \<Longrightarrow>
      sigint s' = sigint s \<and> installed s' = installed s \<and> delivered s' = delivered s
      \<and> flush_error s' = flush_error s
      \<and> r \<noteq> Inl KeyboardInterrupt \<and> (\<forall>c. r = Inl (SystemExit c) \<longrightarrow> c = 1)"
  shows "steady m"
proof (rule steadyI)
  fix s r s'
  assume q: "sigint s = None" "installed s" and run: "m s = (r, s')"
  have "takes m s r s' 0"
    by (simp add: takes_def pending_def assms(1) run)
  then have "\<exists>n. takes m s r s' n" by blast
  with assms(2) [OF run] q
  show "sigint s' = None \<and> installed s' \<and> delivered s' = delivered s
      \<and> flush_error s' = flush_error s
      \<and> r \<noteq> Inl KeyboardInterrupt \<and> (\<forall>c. r = Inl (SystemExit c) \<longrightarrow> c = 1)
      \<and> (\<exists>n. takes m s r s' n)"
    by simp
qed

lemma steady_ret: "steady (ret x)"
  by (rule steady_plain) (auto simp: ret_def)

lemma steady_raise:
  assumes "err \<noteq> KeyboardInterrupt" and "\<forall>c. err = SystemExit c \<longrightarrow> c = 1"
  shows "steady (raise err)"
  using assms by (intro steady_plain) (auto simp: raise_def)

lemma steady_sys_exit: "steady (sys_exit 1)"
  unfolding sys_exit_def by (rule steady_raise) simp_all

lemma steady_print: "steady (print msg)"
  by (rule steady_plain) (auto simp: print_def emit_def split: option.splits)

lemma steady_flush: "steady flush"
  by (rule steady_plain) (auto simp: flush_def split: option.splits)

lemma steady_stderr_write: "steady (stderr_write msg)"
  by (rule steady_plain) (auto simp: stderr_write_def emit_def)

lemma steady_get: "steady (get w url)"
  by (rule steady_plain) (auto simp: get_def emit_def split: sum.splits)

lemma steady_json_of: "steady (json_of r)"
  by (rule steady_plain) (auto simp: json_of_def raise_def ret_def split: sum.splits)

lemma steady_open_file: "steady (open_file w filename)"
  by (rule steady_plain) (auto simp: open_file_def split: option.splits)

lemma steady_write_file: "steady (write_file w filename data)"
  by (rule steady_plain) (auto simp: write_file_def split: option.splits)

lemma steady_getsize: "steady (getsize filename)"
  by (rule steady_plain) (auto simp: getsize_def split: option.splits)

lemma steady_subprocess_run: "steady (subprocess_run w cmd secs capture)"
  by (rule steady_plain) (auto simp: subprocess_run_def emit_def split: process_end.splits)

lemma steady_load: "steady (load name v)"
  by (rule steady_plain) (auto simp: load_def raise_def ret_def split: option.splits)

lemma steady_subscript: "steady (subscript v key)"
  by (rule steady_plain) (cases v; auto simp: raise_def ret_def split: option.splits)+

lemma steady_split_method: "steady (split_method v sep)"
  by (rule steady_plain) (cases v; auto simp: raise_def ret_def)+

lemma steady_index_last: "steady (index_last xs)"
  by (rule steady_plain) (auto simp: index_last_def raise_def ret_def split: list.splits)

lemma steady_index_first: "steady (index_first xs)"
  by (rule steady_plain) (auto simp: index_first_def raise_def ret_def split: list.splits)

lemma steady_decode_method: "steady (decode_method b)"
  by (rule steady_plain) (auto simp: decode_method_def raise_def ret_def split: option.splits)

lemmas steady_intros = steady_seq steady_stmt steady_tick steady_ret steady_print steady_flush
  steady_stderr_write steady_get steady_json_of steady_open_file steady_write_file
  steady_getsize steady_subprocess_run steady_load steady_subscript steady_split_method
  steady_index_last steady_index_first steady_decode_method steady_sys_exit

lemma steady_download: "steady (download w url)"
  unfolding download_def by (intro steady_intros)

lemma steady_run_optionally_verbose: "steady (run_optionally_verbose w cmd secs verbose_flag)"
  unfolding run_optionally_verbose_def by (auto intro!: steady_intros)

lemma steady_checksum_of: "steady (checksum_of p)"
  unfolding checksum_of_def by (intro steady_intros)

lemma steady_raise_returncode: "steady (raise (ReturncodeNonZeroError p))"
  by (rule steady_raise) simp_all

lemma steady_loop_body: "steady (loop_body w cli release_name ext)"
  unfolding loop_body_def
  by (auto intro!: steady_intros steady_download steady_run_optionally_verbose
      steady_checksum_of steady_raise_returncode)

lemma steady_for_loop: "(\<And>x. steady (body x)) \<Longrightarrow> steady (for_loop body xs)"
  by (induction xs) (auto intro!: steady_intros)

lemma steady_release_info_of: "steady (release_info_of r)"
  unfolding release_info_of_def by (auto intro!: steady_intros)

lemma steady_html_url: "steady (html_url release_info)"
  unfolding html_url_def by (intro steady_intros)

lemma steady_release_name_of: "steady (release_name_of release_info)"
  unfolding release_name_of_def by (intro steady_intros steady_html_url)

lemma steady_main_try: "steady (main_try w cli)"
  unfolding main_try_def
  by (intro steady_intros steady_release_info_of steady_html_url steady_release_name_of
      steady_for_loop steady_loop_body)

lemma steady_pass: "steady (pass ls)"
  by (induction ls) (auto intro!: steady_intros)

lemma steady_pointwise:
  assumes "\<And>l. steady (m l)"
  shows "steady (\<lambda>s. m (lineno s) s)"
proof (rule steadyI)
  fix s r s'
  assume q: "sigint s = None" "installed s" and run: "m (lineno s) s = (r, s')"
  note 1 = steadyD [OF assms q run]
  from 1(7) obtain n where "takes (m (lineno s)) s r s' n" by blast
  then have "takes (\<lambda>s. m (lineno s) s) s r s' n" by (simp add: takes_def)
  then have "\<exists>n. takes (\<lambda>s. m (lineno s) s) s r s' n" by blast
  with 1 show "sigint s' = None \<and> installed s' \<and> delivered s' = delivered s
      \<and> flush_error s' = flush_error s
      \<and> r \<noteq> Inl KeyboardInterrupt \<and> (\<forall>c. r = Inl (SystemExit c) \<longrightarrow> c = 1)
      \<and> (\<exists>n. takes (\<lambda>s. m (lineno s) s) s r s' n)"
    by simp
qed

lemma steady_xcrun_missing: "steady (xcrun_missing p)"
  unfolding xcrun_missing_def by (auto intro!: steady_intros split: option.splits)

lemma steady_except_ReturncodeNonZeroError: "steady (except_ReturncodeNonZeroError p)"
  unfolding except_ReturncodeNonZeroError_def
  by (auto intro!: steady_intros steady_xcrun_missing)

lemma steady_except_TimeoutExpired: "steady (except_TimeoutExpired cli cmd secs)"
  unfolding except_TimeoutExpired_def by (intro steady_intros)

lemma steady_except_HaltedError: "steady (except_HaltedError err)"
  unfolding except_HaltedError_def by (intro steady_intros)

lemma steady_except_FatalError: "steady (except_FatalError err)"
  unfolding except_FatalError_def by (intro steady_intros)

lemma steady_except_Exception: "steady (except_Exception err)"
proof -
  have "steady (\<lambda>s. seq (stmt 233 (stderr_write (unrecognized_message (lineno s) err)))
      (\<lambda>_. stmt 234 (sys_exit 1)) s)"
    by (rule steady_pointwise) (intro steady_intros)
  then show ?thesis by (simp add: except_Exception_def [abs_def])
qed

lemma steady_except:
  assumes "err \<noteq> KeyboardInterrupt" and "\<forall>c. err = SystemExit c \<longrightarrow> c = 1"
  shows "steady (except cli err)"
  using assms
  by (cases err)
    (simp_all add: steady_except_ReturncodeNonZeroError steady_except_TimeoutExpired
      steady_except_HaltedError steady_except_FatalError steady_except_Exception
      steady_raise)

text \<open>The \<open>try\<close> statement: the handler runs where the suite has raised.\<close>

lemma takes_catch:
  assumes "takes m s (Inl e) s1 n1" and "takes (h e) s1 r s' n2"
    and "flush_error s1 = flush_error s"
    and "h (SystemExit 0) = raise (SystemExit 0)"
  shows "takes (\<lambda>s. case m s of (Inl err, s') \<Rightarrow> h err s' | (Inr u, s') \<Rightarrow> (Inr u, s'))
      s r s' (n1 + n2)"
  unfolding takes_def
proof (intro allI conjI impI)
  fix i assume i: "i < n1 + n2"
  show "\<exists>t. (case m (pending i s) of (Inl err, s') \<Rightarrow> h err s' | (Inr u, s') \<Rightarrow> (Inr u, s')) =
        (Inl (SystemExit 0), t)
      \<and> delivered t \<and> sigint t = None \<and> flush_error t = flush_error s"
  proof (cases "i < n1")
    case True
    from takesD(1) [OF assms(1) this] show ?thesis by (auto simp: assms(4) raise_def)
  next
    case False
    then have "n1 \<le> i" by simp
    from takesD(2) [OF assms(1) this]
    have 1: "m (pending i s) = (Inl e, pending (i - n1) s1)" .
    from i False have "i - n1 < n2" by simp
    from takesD(1) [OF assms(2) this] assms(3) show ?thesis unfolding 1 by simp
  qed
next
  fix i assume i: "n1 + n2 \<le> i"
  then have "n1 \<le> i" by simp
  from takesD(2) [OF assms(1) this]
  have 1: "m (pending i s) = (Inl e, pending (i - n1) s1)" .
  from i have "n2 \<le> i - n1" by simp
  from takesD(2) [OF assms(2) this]
  show "(case m (pending i s) of (Inl err, s') \<Rightarrow> h err s' | (Inr u, s') \<Rightarrow> (Inr u, s')) =
      (r, pending (i - (n1 + n2)) s')"
    unfolding 1 by simp
qed

lemma takes_catch_return:
  assumes "takes m s (Inr u) s1 n" and "h (SystemExit 0) = raise (SystemExit 0)"
  shows "takes (\<lambda>s. case m s of (Inl err, s') \<Rightarrow> h err s' | (Inr u, s') \<Rightarrow> (Inr u, s'))
      s (Inr u) s1 n"
  unfolding takes_def
proof (intro allI conjI impI)
  fix i assume "i < n"
  from takesD(1) [OF assms(1) this]
  show "\<exists>t. (case m (pending i s) of (Inl err, s') \<Rightarrow> h err s' | (Inr u, s') \<Rightarrow> (Inr u, s')) =
        (Inl (SystemExit 0), t)
      \<and> delivered t \<and> sigint t = None \<and> flush_error t = flush_error s"
    by (auto simp: assms(2) raise_def)
next
  fix i assume "n \<le> i"
  from takesD(2) [OF assms(1) this]
  show "(case m (pending i s) of (Inl err, s') \<Rightarrow> h err s' | (Inr u, s') \<Rightarrow> (Inr u, s')) =
      (Inr u, pending (i - n) s1)"
    by simp
qed

lemma steady_catch:
  assumes "steady m"
    and "\<And>err. err \<noteq> KeyboardInterrupt \<Longrightarrow> \<forall>c. err = SystemExit c \<longrightarrow> c = 1 \<Longrightarrow> steady (h err)"
    and "h (SystemExit 0) = raise (SystemExit 0)"
  shows "steady (\<lambda>s. case m s of (Inl err, s') \<Rightarrow> h err s' | (Inr u, s') \<Rightarrow> (Inr u, s'))"
    (is "steady ?c")
proof (rule steadyI)
  fix s r s'
  assume q: "sigint s = None" "installed s" and run: "?c s = (r, s')"
  obtain r1 s1 where m: "m s = (r1, s1)" by (cases "m s")
  note 1 = steadyD [OF assms(1) q m]
  from 1(7) obtain n1 where n1: "takes m s r1 s1 n1" by blast
  show "sigint s' = None \<and> installed s' \<and> delivered s' = delivered s
      \<and> flush_error s' = flush_error s
      \<and> r \<noteq> Inl KeyboardInterrupt \<and> (\<forall>c. r = Inl (SystemExit c) \<longrightarrow> c = 1)
      \<and> (\<exists>n. takes ?c s r s' n)"
  proof (cases r1)
    case (Inr u)
    with run m have r: "r = Inr u" "s' = s1" by simp_all
    from takes_catch_return [where h = h, OF n1 [unfolded Inr] assms(3)]
    have "\<exists>n. takes ?c s r s' n" unfolding r by blast
    with 1 Inr r show ?thesis by simp
  next
    case (Inl e)
    with run m have h: "h e s1 = (r, s')" by simp
    from 1(5,6) Inl have e: "e \<noteq> KeyboardInterrupt" "\<forall>c. e = SystemExit c \<longrightarrow> c = 1"
      by simp_all
    note 2 = steadyD [OF assms(2) [OF e] 1(1,2) h]
    from 2(7) obtain n2 where n2: "takes (h e) s1 r s' n2" by blast
    from takes_catch [where h = h, OF n1 [unfolded Inl] n2 1(4) assms(3)]
    have "\<exists>n. takes ?c s r s' n" by blast
    with 1 2 show ?thesis by simp
  qed
qed

lemma steady_main: "steady (main w cli)"
  unfolding main_def
  by (intro steady_seq steady_stmt steady_print steady_catch steady_main_try steady_except)
    simp_all

lemma steady_installed_script: "steady (installed_script w cli)"
  unfolding installed_script_def by (intro steady_seq steady_stmt steady_pass steady_main)

lemma fatal_raise: "fatal (raise err)"
  by (simp add: fatal_def raise_def)

lemma fatal_sys_exit: "fatal (sys_exit c)"
  by (simp add: sys_exit_def fatal_raise)

lemma fatal_seq:
  assumes "\<And>x. fatal (f x)"
  shows "fatal (seq m f)"
  unfolding fatal_def
proof (intro allI impI)
  fix s r s'
  assume run: "seq m f s = (r, s')"
  obtain r1 s1 where m: "m s = (r1, s1)" by (cases "m s")
  show "\<exists>err. r = Inl err"
  proof (cases r1)
    case (Inl err)
    with run m have "r = Inl err" by (simp add: seq_def)
    then show ?thesis by blast
  next
    case (Inr x)
    with run m have "f x s1 = (r, s')" by (simp add: seq_def)
    with assms [of x] show ?thesis unfolding fatal_def by blast
  qed
qed

lemma fatal_tick:
  assumes "fatal m"
  shows "fatal (tick m)"
  using assms by (auto simp: fatal_def tick_def split: option.splits nat.splits)

lemma fatal_stmt:
  assumes "fatal m"
  shows "fatal (stmt l m)"
  unfolding stmt_def using assms by (intro fatal_tick) (simp add: fatal_def)

lemma fatal_except_Exception: "fatal (except_Exception err)"
  unfolding fatal_def
proof (intro allI impI)
  fix s r s'
  assume "except_Exception err s = (r, s')"
  then have "seq (stmt 233 (stderr_write (unrecognized_message (lineno s) err)))
      (\<lambda>_. stmt 234 (sys_exit 1)) s = (r, s')"
    by (simp add: except_Exception_def)
  moreover have "fatal (seq (stmt 233 (stderr_write (unrecognized_message (lineno s) err)))
      (\<lambda>_. stmt 234 (sys_exit 1)))"
    by (intro fatal_seq fatal_stmt fatal_sys_exit)
  ultimately show "\<exists>e. r = Inl e" unfolding fatal_def by blast
qed

lemma fatal_except: "fatal (except cli err)"
  by (cases err)
    (simp_all add: fatal_except_Exception fatal_raise except_ReturncodeNonZeroError_def
      except_TimeoutExpired_def except_HaltedError_def except_FatalError_def
      fatal_seq fatal_stmt fatal_sys_exit)







lemma script_installed:
  assumes "sigint s = None"
  shows "script w cli s = installed_script w cli (s\<lparr>installed := True, lineno := 53\<rparr>)"
  using assms
  by (simp add: script_def installed_script_def pass_quiet seq_def stmt_quiet
      signal_signal_def del: pass.simps)







lemma status_steady:
  assumes "r \<noteq> Inl KeyboardInterrupt" and "\<forall>c. r = Inl (SystemExit c) \<longrightarrow> c = 1"
  shows "status r = (case r of Inr u \<Rightarrow> 0 | Inl err \<Rightarrow> 1)"
proof (cases r)
  case (Inr u)
  then show ?thesis by (simp add: status_def)
next
  case (Inl err)
  with assms show ?thesis by (cases err) (simp_all add: status_def)
qed

lemma flush_error_excepthook [simp]: "flush_error (excepthook r s) = flush_error s"
  by (cases r) (simp_all add: excepthook_def emit_def split: exn.splits)




lemma sample_tar_file:
  "local_name (last_segment (RELEASE_TAG_URL @ ''1.2.3.tar.gz'')) = ''govready-q-1.2.3.tar.gz''"
  by (simp add: last_segment_def RELEASE_TAG_URL_def local_name_def replace_def)

lemma sample_tar_fetch:
  "requests_get (sample_world outcome) (RELEASE_TAG_URL @ ''1.2.3.tar.gz'') = Inr archive"
  by (simp add: sample_world_def RELEASE_TAG_URL_def RELEASE_INFO_def)

lemma decode_shasum_output: "decode shasum_output = Some shasum_output"
  by (simp add: decode_def shasum_output_def continuation_def)

lemma sample_try_finished:
  "\<exists>s1. main_try (sample_world finished) sample_opts (begun initial) = (Inr (), s1)"
  by (simp add: main_try_quiet loop_body_quiet stmt_quiet seq_def ret_def step_def initial_def
      begun_def writable_def sample_info_fetch sample_zip_fetch sample_tar_fetch
      sample_world_simps sample_release sample_zip_file sample_tar_file saved_def Let_def
      release_page_def archive_def sample_opts_simps decode_shasum_output finished_def)





lemma metadata_error_run:
  assumes "sigint s = None" and "writable s"
    and "requests_get w RELEASE_INFO = Inr r" and "status_code r \<noteq> 200"
  shows "main_try w cli (begun s) =
      (Inl (UnboundLocalError ''release_info''),
       step 146 [Get RELEASE_INFO, Stdout api_error] (begun s))"
    and "exit_status w cli s =
      (Status 1, step 234 [Get RELEASE_INFO, Stdout api_error,
            Stderr (unrecognized_message 146 (UnboundLocalError ''release_info''))] (begun s))"
proof -
  from assms(1,2) have quiet: "sigint (begun s) = None" "writable (begun s)" by simp_all
  show mt: "main_try w cli (begun s) =
      (Inl (UnboundLocalError ''release_info''),
       step 146 [Get RELEASE_INFO, Stdout api_error] (begun s))"
    unfolding main_try_quiet [OF quiet] using assms(3,4) by simp
  have "unclassified (UnboundLocalError ''release_info'')" by simp
  from exit_status_unclassified [OF assms(1,2) mt this]
  show "exit_status w cli s =
      (Status 1, step 234 [Get RELEASE_INFO, Stdout api_error,
            Stderr (unrecognized_message 146 (UnboundLocalError ''release_info''))] (begun s))"
    by (simp add: step_def)
qed

text \<open>C2, as amended. In a run that no interrupt reaches and that can write to standard
  output, let the metadata endpoint answer with a status other than 200. Then the run
  prints the banner and the notice of line 143, which does not carry the status,
  requests nothing but the metadata (no artifact download is attempted), starts no
  command, writes no file, and ends with the exit status 1.\<close>

theorem metadata_error_aborts:
  assumes "sigint s = None" and "writable s"
    and "requests_get w RELEASE_INFO = Inr r" and "status_code r \<noteq> 200"
  shows "fst (exit_status w cli s) = Status 1
    \<and> printed (run_events w cli s) = [banner, api_error]
    \<and> fetched (run_events w cli s) = [RELEASE_INFO]
    \<and> started (run_events w cli s) = []
    \<and> files (snd (exit_status w cli s)) = files s"
  unfolding run_events_def metadata_error_run(2) [OF assms]
  by (simp add: step_def begun_def)

lemma status_world_fetch:
  "requests_get (status_world code) url =
     Inr \<lparr>status_code = code, content = [], json = Inl ''JSONDecodeError''\<rparr>"
  by (simp add: status_world_def)

theorem metadata_error_aborts_witness:
  "fst (exit_status (status_world 404) sample_opts initial) = Status 1
    \<and> printed (run_events (status_world 404) sample_opts initial) = [banner, api_error]
    \<and> fetched (run_events (status_world 404) sample_opts initial) = [RELEASE_INFO]
    \<and> started (run_events (status_world 404) sample_opts initial) = []
    \<and> files (snd (exit_status (status_world 404) sample_opts initial)) = files initial"
  by (rule metadata_error_aborts [OF initial_quiet initial_writable status_world_fetch]) simp

lemma metadata_error_interrupted:
  "exit_status (status_world 404) sample_opts (interrupted_at 30) =
     (Status 0, initial\<lparr>installed := True, delivered := True, lineno := 138,
        trace := [Stdout banner, Get RELEASE_INFO]\<rparr>)"
  by (simp add: run_defs io_defs interrupted_at_def initial_def status_world_fetch)

lemma metadata_error_muted:
  "exit_status (status_world 404) sample_opts muted =
     (Status 1, muted\<lparr>installed := True, lineno := 234,
        trace := [Stdout banner, Get RELEASE_INFO,
          Stderr (unrecognized_message 143 (LibraryError ''Broken pipe''))]\<rparr>)"
  by (simp add: run_defs io_defs muted_def initial_def status_world_fetch
      except_Exception_def)

lemma metadata_error_unflushable:
  "fst (exit_status (status_world 404) sample_opts unflushable) = Status 120"
  by (simp add: run_defs io_defs unflushable_def initial_def status_world_fetch
      except_Exception_def load_def)

text \<open>C2 as stated fails. Whether the endpoint answers 404 or 500, the exception that
  leaves the \<open>try\<close> suite is the \<open>UnboundLocalError\<close> of line 146 for the variable
  \<open>release_info\<close>, and the two runs emit the same events: nothing carries the status.
  When the interrupt arrives after the answer, as line 139 begins, nothing is signalled
  and the exit status is 0. When standard output fails at line 143, the notice is not
  printed and the error is that of \<open>print\<close>. When standard output cannot be flushed at
  exit, the status is 120.\<close>

theorem metadata_status_counterexample:
  "fst (main_try (status_world 404) sample_opts (begun initial)) =
       Inl (UnboundLocalError ''release_info'')
   \<and> fst (main_try (status_world 500) sample_opts (begun initial)) =
       Inl (UnboundLocalError ''release_info'')
   \<and> run_events (status_world 404) sample_opts initial =
       [Stdout banner, Get RELEASE_INFO, Stdout api_error,
        Stderr (unrecognized_message 146 (UnboundLocalError ''release_info''))]
   \<and> run_events (status_world 500) sample_opts initial =
       run_events (status_world 404) sample_opts initial
   \<and> run_events (status_world 404) sample_opts (interrupted_at 30) =
       [Stdout banner, Get RELEASE_INFO]
   \<and> fst (exit_status (status_world 404) sample_opts (interrupted_at 30)) = Status 0
   \<and> run_events (status_world 404) sample_opts muted =
       [Stdout banner, Get RELEASE_INFO,
        Stderr (unrecognized_message 143 (LibraryError ''Broken pipe''))]
   \<and> fst (exit_status (status_world 404) sample_opts unflushable) = Status 120"
proof -
  have a: "status_code \<lparr>status_code = 404, content = [], json = Inl ''JSONDecodeError''\<rparr> \<noteq> 200"
    and b: "status_code \<lparr>status_code = 500, content = [], json = Inl ''JSONDecodeError''\<rparr> \<noteq> 200"
    by simp_all
  note r404 = metadata_error_run [OF initial_quiet initial_writable status_world_fetch a]
  note r500 = metadata_error_run [OF initial_quiet initial_writable status_world_fetch b]
  have 1: "run_events (status_world 404) sample_opts (interrupted_at 30) =
      [Stdout banner, Get RELEASE_INFO]"
    unfolding run_events_def metadata_error_interrupted
    by (simp add: interrupted_at_def initial_def)
  have 2: "run_events (status_world 404) sample_opts muted =
      [Stdout banner, Get RELEASE_INFO,
       Stderr (unrecognized_message 143 (LibraryError ''Broken pipe''))]"
    unfolding run_events_def metadata_error_muted
    by (simp add: muted_def initial_def)
  show ?thesis
    unfolding 1 2 metadata_error_interrupted metadata_error_unflushable
    unfolding run_events_def r404 r500
    by (simp add: step_def begun_def initial_def)
qed

text \<open>C5. When the metadata endpoint answers 200 with a JSON object whose \<open>html_url\<close>
  is a string, the release name of line 149 is the last \<open>'/'\<close>-delimited segment of
  that URL: the segment holds no \<open>'/'\<close>, and the URL is the segment after a prefix that
  is empty or ends with \<open>'/'\<close>. In a run that no interrupt reaches and that can write
  to standard output, the loop over the extensions runs with that name.\<close>

theorem release_name_is_last_segment:
  assumes "requests_get w RELEASE_INFO = Inr r" and "status_code r = 200"
    and "json r = Inr (PDict kvs)" and "map_of kvs ''html_url'' = Some (PStr u)"
  shows "release_name_of (Some (PDict kvs)) s0 = (Inr (last_segment u), s0)
    \<and> (sigint s = None \<and> writable s \<longrightarrow>
         main_try w cli s =
           for_loop (loop_body w cli (last_segment u)) [''.zip'', ''.tar.gz'']
             (step 150 (resolving (PStr u) (last_segment u)) s))
    \<and> CHR ''/'' \<notin> set (last_segment u)
    \<and> (\<exists>p. u = p @ last_segment u \<and> (p = [] \<or> last p = CHR ''/''))"
proof -
  have "release_name_of (Some (PDict kvs)) s0 = (Inr (last_segment u), s0)"
    using assms(4)
    by (simp add: release_name_of_def html_url_def load_def seq_def ret_def
        index_last_split last_split_slash)
  moreover have "main_try w cli s =
      for_loop (loop_body w cli (last_segment u)) [''.zip'', ''.tar.gz'']
        (step 150 (resolving (PStr u) (last_segment u)) s)"
    if "sigint s = None" and "writable s"
    using assms by (simp add: main_try_quiet [OF that])
  ultimately show ?thesis
    using last_segment_no_slash [of u] last_segment_suffix [of u] by simp
qed

theorem release_name_is_last_segment_witness:
  "release_name_of (Some (PDict [(''html_url'', PStr ''https://github.com/x/y/releases/tag/1.2.3'')]))
      initial = (Inr ''1.2.3'', initial)
   \<and> main_try (sample_world Expired) sample_opts initial =
        for_loop (loop_body (sample_world Expired) sample_opts ''1.2.3'') [''.zip'', ''.tar.gz'']
          (step 150 (resolving (PStr ''https://github.com/x/y/releases/tag/1.2.3'') ''1.2.3'') initial)"
  using release_name_is_last_segment [of "sample_world Expired" release_page
      "[(''html_url'', PStr ''https://github.com/x/y/releases/tag/1.2.3'')]"
      "''https://github.com/x/y/releases/tag/1.2.3''" initial initial sample_opts]
    initial_quiet initial_writable
  by (simp add: sample_info_fetch release_page_def sample_release)

lemma tick_returns:
  assumes "tick m s = (Inr x, s')"
  shows "\<exists>s0. m s0 = (Inr x, s') \<and> files s0 = files s \<and> trace s0 = trace s"
  using assms by (auto simp: tick_def split: option.splits nat.splits)

lemma seq_returns:
  assumes "seq m f s = (Inr y, s')"
  shows "\<exists>x s1. m s = (Inr x, s1) \<and> f x s1 = (Inr y, s')"
  using assms by (auto simp: seq_def split: prod.splits sum.splits)

lemma get_returns:
  assumes "get w url s = (Inr r, s')"
  shows "requests_get w url = Inr r" and "s' = emit (Get url) s"
  using assms by (cases "requests_get w url"; simp add: get_def)+

lemma open_file_returns:
  assumes "open_file w filename s = (Inr u, s')"
  shows "s' = s\<lparr>files := (files s)(filename \<mapsto> [])\<rparr>"
  using assms by (cases "open_wb w filename") (simp_all add: open_file_def)

lemma write_file_returns:
  assumes "write_file w filename data s = (Inr u, s')"
  shows "s' = s\<lparr>files := (files s)(filename \<mapsto> data)\<rparr>"
  using assms by (cases "file_write w filename data") (simp_all add: write_file_def)

lemma download_returns:
  assumes "download w url s = (Inr file, s')"
  shows "file = local_name (last_segment url)
    \<and> (\<exists>r. requests_get w url = Inr r \<and> files s' = (files s)(file \<mapsto> content r))
    \<and> trace s' = trace s @ [Get url]"
proof -
  from assms [unfolded download_def] obtain segment s1 r s2 s3 s4
    where 1: "tick (index_last (split url CHR ''/'')) s = (Inr segment, s1)"
      and 2: "tick (get w url) s1 = (Inr r, s2)"
      and 3: "tick (open_file w (local_name segment)) s2 = (Inr (), s3)"
      and 4: "tick (write_file w (local_name segment) (content r)) s3 = (Inr (), s4)"
      and 5: "tick (ret (local_name segment)) s4 = (Inr file, s')"
    by (auto dest!: seq_returns)
  from tick_returns [OF 1] have seg: "segment = last_segment url" "files s1 = files s" "trace s1 = trace s"
    by (auto simp: index_last_split last_split_slash ret_def)
  from tick_returns [OF 2] obtain t2 where t2: "get w url t2 = (Inr r, s2)" "files t2 = files s1" "trace t2 = trace s1"
    by blast
  from get_returns [OF t2(1)] t2(2,3) seg
  have get: "requests_get w url = Inr r" "files s2 = files s" "trace s2 = trace s @ [Get url]"
    by (simp_all add: emit_def)
  from tick_returns [OF 3] obtain t3 where t3: "open_file w (local_name segment) t3 = (Inr (), s3)"
    "files t3 = files s2" "trace t3 = trace s2"
    by blast
  from open_file_returns [OF t3(1)] t3(2,3) get
  have opn: "files s3 = (files s)(local_name segment \<mapsto> [])" "trace s3 = trace s @ [Get url]"
    by simp_all
  from tick_returns [OF 4] obtain t4 where t4: "write_file w (local_name segment) (content r) t4 = (Inr (), s4)"
    "files t4 = files s3" "trace t4 = trace s3"
    by blast
  from write_file_returns [OF t4(1)] t4(2,3) opn
  have wrt: "files s4 = (files s)(local_name segment \<mapsto> content r)" "trace s4 = trace s @ [Get url]"
    by simp_all
  from tick_returns [OF 5] have "file = local_name segment" "files s' = files s4" "trace s' = trace s4"
    by (auto simp: ret_def)
  with seg get wrt show ?thesis by simp
qed

text \<open>C8. When \<open>download\<close> returns, the server had answered, the file it names exists
  and holds the body of the answer, and \<open>os.path.getsize\<close> reports the length of that
  body: at once, and also at line 161, after line 158 has printed.\<close>

theorem downloaded_size_is_length:
  assumes "download w url s = (Inr file, s1)"
  shows "\<exists>r. requests_get w url = Inr r
    \<and> files s1 file = Some (content r)
    \<and> getsize file s1 = (Inr (length (content r)), s1)
    \<and> (\<forall>s2 s3 nbytes.
          stmt 158 (print (''Downloaded '' @ file, [])) s1 = (Inr (), s2) \<and>
          stmt 161 (getsize file) s2 = (Inr nbytes, s3) \<longrightarrow> nbytes = length (content r))"
proof -
  from download_returns [OF assms] obtain r
    where r: "requests_get w url = Inr r" and f: "files s1 = (files s)(file \<mapsto> content r)"
    by blast
  have later: "nbytes = length (content r)"
    if "stmt 158 (print (''Downloaded '' @ file, [])) s1 = (Inr (), s2)"
      and "stmt 161 (getsize file) s2 = (Inr nbytes, s3)" for s2 s3 nbytes
  proof -
    from tick_returns [OF that(1) [unfolded stmt_def]] have "files s2 = files s1"
      by (auto simp: print_def emit_def split: option.splits)
    with tick_returns [OF that(2) [unfolded stmt_def]] f show ?thesis
      by (auto simp: getsize_def split: option.splits)
  qed
  from r f later show ?thesis
    by (auto simp: getsize_def)
qed

lemma world_404_simps:
  "requests_get world_404 RELEASE_INFO = Inr release_page"
  "requests_get world_404 (RELEASE_TAG_URL @ ''1.2.3.zip'') = Inr not_found"
  "requests_get world_404 (RELEASE_TAG_URL @ ''1.2.3.tar.gz'') = Inr not_found"
  "open_wb world_404 filename = None"
  "file_write world_404 filename data = None"
  "spawn world_404 cmd secs capture = Exited 0 shasum_output []"
  by (simp_all add: world_404_def RELEASE_TAG_URL_def RELEASE_INFO_def)

lemma download_404:
  "download world_404 zip_url initial =
     (Inr ''govready-q-1.2.3.zip'',
      initial\<lparr>trace := [Get zip_url], files := [''govready-q-1.2.3.zip'' \<mapsto> ''Not Found'']\<rparr>)"
  unfolding zip_url_def download_quiet [OF initial_quiet]
  by (simp add: world_404_simps sample_zip_file not_found_def emit_def initial_def)

lemma run_404_succeeds:
  "\<exists>s1. main_try world_404 sample_opts (begun initial) = (Inr (), s1)
     \<and> files s1 ''govready-q-1.2.3.zip'' = Some ''Not Found''"
  by (simp add: main_try_quiet loop_body_quiet stmt_quiet seq_def ret_def step_def initial_def
      begun_def writable_def
      world_404_simps sample_release sample_zip_file sample_tar_file saved_def Let_def
      release_page_def not_found_def sample_opts_simps decode_shasum_output)

text \<open>C1 fails on the code. The server answers the request for the archive with the
  status 404 and the body \<open>Not Found\<close>: \<open>download\<close> never reads the status, writes the
  body to the local file and returns its name; the run goes on to take the checksum of
  that file and ends with the exit status 0, the body of the error in the file.\<close>

theorem download_ignores_status:
  "requests_get world_404 zip_url = Inr not_found
   \<and> status_code not_found = 404
   \<and> download world_404 zip_url initial =
       (Inr ''govready-q-1.2.3.zip'',
        initial\<lparr>trace := [Get zip_url],
          files := [''govready-q-1.2.3.zip'' \<mapsto> ''Not Found'']\<rparr>)
   \<and> fst (exit_status world_404 sample_opts initial) = Status 0
   \<and> files (snd (exit_status world_404 sample_opts initial)) ''govready-q-1.2.3.zip'' =
       Some ''Not Found''"
proof -
  from run_404_succeeds obtain s1
    where "main_try world_404 sample_opts (begun initial) = (Inr (), s1)"
      "files s1 ''govready-q-1.2.3.zip'' = Some ''Not Found''"
    by blast
  with exit_status_returns [OF initial_quiet initial_writable this(1)]
  have "fst (exit_status world_404 sample_opts initial) = Status 0"
    "files (snd (exit_status world_404 sample_opts initial)) ''govready-q-1.2.3.zip'' =
       Some ''Not Found''"
    by simp_all
  then show ?thesis
    by (simp add: download_404) (simp add: zip_url_def world_404_simps not_found_def)
qed

lemma download_sample:
  "download (sample_world finished) zip_url initial =
     (Inr ''govready-q-1.2.3.zip'',
      initial\<lparr>trace := [Get zip_url], files := [''govready-q-1.2.3.zip'' \<mapsto> ''PK'']\<rparr>)"
  unfolding zip_url_def download_quiet [OF initial_quiet]
  by (simp add: sample_zip_fetch sample_world_simps sample_zip_file archive_def emit_def
      initial_def)

theorem downloaded_size_is_length_witness:
  "requests_get (sample_world finished) zip_url = Inr archive
   \<and> files (initial\<lparr>trace := [Get zip_url], files := [''govready-q-1.2.3.zip'' \<mapsto> ''PK'']\<rparr>)
       ''govready-q-1.2.3.zip'' = Some ''PK''
   \<and> getsize ''govready-q-1.2.3.zip''
       (initial\<lparr>trace := [Get zip_url], files := [''govready-q-1.2.3.zip'' \<mapsto> ''PK'']\<rparr>) =
     (Inr (length ''PK''),
      initial\<lparr>trace := [Get zip_url], files := [''govready-q-1.2.3.zip'' \<mapsto> ''PK'']\<rparr>)
   \<and> fst (stmt 161 (getsize ''govready-q-1.2.3.zip'')
       (snd (stmt 158 (print (''Downloaded govready-q-1.2.3.zip'', []))
          (initial\<lparr>trace := [Get zip_url],
             files := [''govready-q-1.2.3.zip'' \<mapsto> ''PK'']\<rparr>)))) = Inr (length ''PK'')"
proof -
  have "fst (stmt 161 (getsize ''govready-q-1.2.3.zip'')
       (snd (stmt 158 (print (''Downloaded govready-q-1.2.3.zip'', []))
          (initial\<lparr>trace := [Get zip_url],
             files := [''govready-q-1.2.3.zip'' \<mapsto> ''PK'']\<rparr>)))) = Inr (length ''PK'')"
    by (simp add: io_defs initial_def)
  with downloaded_size_is_length [OF download_sample] show ?thesis
    by (auto simp: zip_url_def sample_zip_fetch archive_def)
qed

lemma local_name_last_segment: "local_name (last_segment url) = local_file url"
  by (simp add: local_name_def local_file_def replace_def)

lemma fetched_append: "fetched (xs @ ys) = fetched xs @ fetched ys"
  by (induction xs rule: fetched.induct) auto

lemma started_append: "started (xs @ ys) = started xs @ started ys"
  by (induction xs rule: started.induct) auto

lemma fetched_stderr: "list_all is_stderr xs \<Longrightarrow> fetched xs = []"
  by (induction xs rule: fetched.induct) auto

lemma started_stderr: "list_all is_stderr xs \<Longrightarrow> started xs = []"
  by (induction xs rule: started.induct) auto

lemma requests_simps [simp]:
  "fetched (fetching url) = [url]" "started (fetching url) = []"
  "fetched (measuring url file n cmd) = [url]" "started (measuring url file n cmd) = [cmd]"
  "fetched (elapsed cli) = []" "started (elapsed cli) = []"
  "fetched (rendering release_name ext checksum n) = []"
  "started (rendering release_name ext checksum n) = []"
  "fetched (resolving v release_name) = [RELEASE_INFO]" "started (resolving v release_name) = []"
  by (simp_all add: fetching_def measuring_def elapsed_def rendering_def resolving_def)

lemma loop_body_requests:
  assumes "sigint s = None" and "writable s" and "loop_body w cli release_name ext s = (r, s')"
  shows "sigint s' = None \<and> writable s' \<and> (\<exists>ev. trace s' = trace s @ ev
    \<and> fetched ev = [download_url release_name ext]
    \<and> (started ev = [] \<and> r \<noteq> Inr ()
        \<or> started ev = [get_checksum cli (local_file (download_url release_name ext))]))"
  using assms
  by (auto simp: loop_body_quiet Let_def step_def saved_def download_url_def
      local_name_last_segment fetched_append started_append
      split: sum.splits option.splits process_end.splits if_splits)

lemma for_loop_two:
  fixes body :: "'a \<Rightarrow> unit io"
  assumes "sigint s = None" and "body a (s\<lparr>lineno := 153\<rparr>) = (r1, s1)" and "sigint s1 = None"
  shows "for_loop body [a, b] s =
     (case r1 of Inl err \<Rightarrow> (Inl err, s1) | Inr u \<Rightarrow> body b (s1\<lparr>lineno := 153\<rparr>))"
proof (cases r1)
  case (Inl err)
  with assms show ?thesis by (simp add: seq_def stmt_quiet)
next
  case (Inr u)
  obtain r2 s2 where "body b (s1\<lparr>lineno := 153\<rparr>) = (r2, s2)"
    by (cases "body b (s1\<lparr>lineno := 153\<rparr>)")
  with assms Inr show ?thesis
    by (cases r2) (simp_all add: seq_def stmt_quiet ret_def)
qed

lemma run_requests:
  assumes "sigint s = None" and "writable s"
    and "requests_get w RELEASE_INFO = Inr r" and "status_code r = 200"
    and "json r = Inr (PDict kvs)" and "map_of kvs ''html_url'' = Some (PStr u)"
    and "main_try w cli (begun s) = (res, s')"
  shows "\<exists>ev. trace s' = trace s @ Stdout banner # ev
    \<and> (fetched ev = [RELEASE_INFO, download_url (last_segment u) ''.zip''] \<and> res \<noteq> Inr ()
        \<and> (started ev = [] \<or>
            started ev = [get_checksum cli (local_file (download_url (last_segment u) ''.zip''))])
      \<or> fetched ev = [RELEASE_INFO, download_url (last_segment u) ''.zip'',
            download_url (last_segment u) ''.tar.gz'']
        \<and> (started ev = [get_checksum cli (local_file (download_url (last_segment u) ''.zip''))]
              \<and> res \<noteq> Inr ()
            \<or> started ev = [get_checksum cli (local_file (download_url (last_segment u) ''.zip'')),
                 get_checksum cli (local_file (download_url (last_segment u) ''.tar.gz''))]))"
proof -
  let ?name = "last_segment u"
  let ?s0 = "step 150 (resolving (PStr u) ?name) (begun s)"
  let ?body = "loop_body w cli ?name"
  have quiet0: "sigint (begun s) = None" "writable (begun s)" "sigint ?s0 = None"
    "sigint (?s0\<lparr>lineno := 153\<rparr>) = None" "writable (?s0\<lparr>lineno := 153\<rparr>)"
    using assms(1,2) by (simp_all add: step_def)
  have loop: "for_loop ?body [''.zip'', ''.tar.gz''] ?s0 = (res, s')"
    using assms(3-7) unfolding main_try_quiet [OF quiet0(1,2)] by simp
  obtain r1 s1 where b1: "?body ''.zip'' (?s0\<lparr>lineno := 153\<rparr>) = (r1, s1)"
    by (cases "?body ''.zip'' (?s0\<lparr>lineno := 153\<rparr>)")
  from loop_body_requests [OF quiet0(4,5) b1]
  obtain ev1 where q1: "sigint s1 = None" "writable s1"
    and t1: "trace s1 = trace s @ Stdout banner # resolving (PStr u) ?name @ ev1"
    and f1: "fetched ev1 = [download_url ?name ''.zip'']"
    and c1: "started ev1 = [] \<and> r1 \<noteq> Inr ()
      \<or> started ev1 = [get_checksum cli (local_file (download_url ?name ''.zip''))]"
    by (auto simp: step_def)
  note two = for_loop_two [where body = ?body and a = "''.zip''" and b = "''.tar.gz''",
      OF quiet0(3) b1 q1(1)]
  show ?thesis
  proof (cases r1)
    case (Inl err)
    with loop two have "res = Inl err" "s' = s1" by simp_all
    with t1 f1 c1 Inl show ?thesis
      by (auto simp: fetched_append started_append)
  next
    case (Inr u1)
    with loop two have b2: "?body ''.tar.gz'' (s1\<lparr>lineno := 153\<rparr>) = (res, s')"
      by simp
    from q1 have "sigint (s1\<lparr>lineno := 153\<rparr>) = None" "writable (s1\<lparr>lineno := 153\<rparr>)"
      by simp_all
    from loop_body_requests [OF this b2]
    obtain ev2 where t2: "trace s' = trace s1 @ ev2"
      and f2: "fetched ev2 = [download_url ?name ''.tar.gz'']"
      and c2: "started ev2 = [] \<and> res \<noteq> Inr ()
        \<or> started ev2 = [get_checksum cli (local_file (download_url ?name ''.tar.gz''))]"
      by auto
    from c1 Inr have c1': "started ev1 = [get_checksum cli (local_file (download_url ?name ''.zip''))]"
      by simp
    from t1 t2 have "trace s' = trace s @ Stdout banner # (resolving (PStr u) ?name @ ev1 @ ev2)"
      by simp
    moreover have "fetched (resolving (PStr u) ?name @ ev1 @ ev2) =
        [RELEASE_INFO, download_url ?name ''.zip'', download_url ?name ''.tar.gz'']"
      using f1 f2 by (simp add: fetched_append)
    moreover have "started (resolving (PStr u) ?name @ ev1 @ ev2) =
        get_checksum cli (local_file (download_url ?name ''.zip'')) # started ev2"
      using c1' by (simp add: started_append)
    ultimately show ?thesis using c2 by auto
  qed
qed

lemma local_file_download_url:
  assumes "CHR ''/'' \<notin> set release_id" and "CHR ''/'' \<notin> set ext"
  shows "local_file (download_url release_id ext) =
     ''govready-q-'' @ map (\<lambda>c. if c = CHR '' '' then CHR ''_'' else c) (release_id @ ext)"
proof -
  have "last_segment (RELEASE_TAG_URL @ (release_id @ ext)) = release_id @ ext"
    using assms by (intro last_segment_append) (simp_all add: RELEASE_TAG_URL_def)
  then show ?thesis by (simp add: local_file_def download_url_def)
qed

text \<open>C6. Take a run that no interrupt reaches and that can write to standard output,
  in which the metadata give the release URL \<open>u\<close>; the release identifier is its last
  segment. The run requests the metadata, then the download URL of \<open>.zip\<close>, then, when
  the first pass of the loop has completed, that of \<open>.tar.gz\<close>, and nothing else; each
  download URL is the base URL, the identifier and the extension concatenated. The
  commands it starts are the checksum commands of the local files of these URLs, in the
  same order; when the \<open>try\<close> suite completes, both URLs were requested and both
  commands started. Whenever \<open>download\<close> returns, the file it has written and names is
  \<open>govready-q-\<close> followed by the last segment of the URL with every space replaced by
  an underscore; for the two download URLs that segment is the identifier followed by
  the extension.\<close>

theorem download_urls_and_filenames:
  assumes "sigint s = None" and "writable s"
    and "requests_get w RELEASE_INFO = Inr r" and "status_code r = 200"
    and "json r = Inr (PDict kvs)" and "map_of kvs ''html_url'' = Some (PStr u)"
  shows "(fetched (run_events w cli s) =
            [RELEASE_INFO, RELEASE_TAG_URL @ last_segment u @ ''.zip'']
          \<or> fetched (run_events w cli s) =
            [RELEASE_INFO, RELEASE_TAG_URL @ last_segment u @ ''.zip'',
             RELEASE_TAG_URL @ last_segment u @ ''.tar.gz''])
    \<and> prefix (started (run_events w cli s))
         [get_checksum cli (local_file (download_url (last_segment u) ''.zip'')),
          get_checksum cli (local_file (download_url (last_segment u) ''.tar.gz''))]
    \<and> (fst (main_try w cli (begun s)) = Inr () \<longrightarrow>
         fetched (run_events w cli s) =
           [RELEASE_INFO, download_url (last_segment u) ''.zip'',
            download_url (last_segment u) ''.tar.gz'']
         \<and> started (run_events w cli s) =
           [get_checksum cli (local_file (download_url (last_segment u) ''.zip'')),
            get_checksum cli (local_file (download_url (last_segment u) ''.tar.gz''))])
    \<and> (\<forall>url s0 file s1. download w url s0 = (Inr file, s1) \<longrightarrow>
          file = local_file url \<and> files s1 file \<noteq> None)
    \<and> (\<forall>ext \<in> {''.zip'', ''.tar.gz''}.
          local_file (download_url (last_segment u) ext) =
            ''govready-q-'' @ map (\<lambda>c. if c = CHR '' '' then CHR ''_'' else c)
              (last_segment u @ ext))"
proof -
  obtain res s1 where mt: "main_try w cli (begun s) = (res, s1)"
    by (cases "main_try w cli (begun s)")
  from run_events_quiet [OF assms(1,2) mt]
  obtain ev hev where run: "run_events w cli s = Stdout banner # ev @ hev"
    and tr: "trace s1 = trace s @ Stdout banner # ev" and hev: "list_all is_stderr hev"
    by blast
  from run_requests [OF assms mt] tr
  have req: "fetched ev = [RELEASE_INFO, download_url (last_segment u) ''.zip''] \<and> res \<noteq> Inr ()
        \<and> (started ev = [] \<or>
            started ev = [get_checksum cli (local_file (download_url (last_segment u) ''.zip''))])
      \<or> fetched ev = [RELEASE_INFO, download_url (last_segment u) ''.zip'',
            download_url (last_segment u) ''.tar.gz'']
        \<and> (started ev = [get_checksum cli (local_file (download_url (last_segment u) ''.zip''))]
              \<and> res \<noteq> Inr ()
            \<or> started ev = [get_checksum cli (local_file (download_url (last_segment u) ''.zip'')),
                 get_checksum cli (local_file (download_url (last_segment u) ''.tar.gz''))])"
    by auto
  have f: "fetched (run_events w cli s) = fetched ev"
    and c: "started (run_events w cli s) = started ev"
    unfolding run using hev
    by (simp_all add: fetched_append started_append fetched_stderr started_stderr)
  have names: "name = local_file url \<and> files s2 name \<noteq> None"
    if "download w url s0 = (Inr name, s2)" for url s0 name s2
    using download_returns [OF that] by (auto simp: local_name_last_segment)
  have segs: "local_file (download_url (last_segment u) ext) =
      ''govready-q-'' @ map (\<lambda>c. if c = CHR '' '' then CHR ''_'' else c) (last_segment u @ ext)"
    if "ext \<in> {''.zip'', ''.tar.gz''}" for ext
    using that last_segment_no_slash [of u] by (intro local_file_download_url) auto
  from req have 1: "fetched ev = [RELEASE_INFO, RELEASE_TAG_URL @ last_segment u @ ''.zip'']
      \<or> fetched ev = [RELEASE_INFO, RELEASE_TAG_URL @ last_segment u @ ''.zip'',
           RELEASE_TAG_URL @ last_segment u @ ''.tar.gz'']"
    by (auto simp: download_url_def)
  from req have 2: "prefix (started ev)
      [get_checksum cli (local_file (download_url (last_segment u) ''.zip'')),
       get_checksum cli (local_file (download_url (last_segment u) ''.tar.gz''))]"
    by auto
  from req have 3: "res = Inr () \<longrightarrow>
      fetched ev = [RELEASE_INFO, download_url (last_segment u) ''.zip'',
         download_url (last_segment u) ''.tar.gz'']
      \<and> started ev = [get_checksum cli (local_file (download_url (last_segment u) ''.zip'')),
         get_checksum cli (local_file (download_url (last_segment u) ''.tar.gz''))]"
    by auto
  from 1 2 3 names segs show ?thesis
    unfolding f c mt by simp
qed

theorem download_urls_and_filenames_witness:
  "fetched (run_events (sample_world finished) sample_opts initial) =
     [RELEASE_INFO, RELEASE_TAG_URL @ ''1.2.3.zip'', RELEASE_TAG_URL @ ''1.2.3.tar.gz'']
   \<and> started (run_events (sample_world finished) sample_opts initial) =
     [[''shasum'', ''-a'', ''256'', ''govready-q-1.2.3.zip''],
      [''shasum'', ''-a'', ''256'', ''govready-q-1.2.3.tar.gz'']]
   \<and> fst (download (sample_world finished) zip_url initial) = Inr ''govready-q-1.2.3.zip''
   \<and> local_file zip_url = ''govready-q-1.2.3.zip''"
proof -
  from sample_try_finished obtain s1
    where mt: "main_try (sample_world finished) sample_opts (begun initial) = (Inr (), s1)"
    by blast
  have m: "map_of [(''html_url'', PStr ''https://github.com/x/y/releases/tag/1.2.3'')] ''html_url''
      = Some (PStr ''https://github.com/x/y/releases/tag/1.2.3'')"
    by simp
  have j: "json release_page =
      Inr (PDict [(''html_url'', PStr ''https://github.com/x/y/releases/tag/1.2.3'')])"
    and c: "status_code release_page = 200"
    by (simp_all add: release_page_def)
  note t = download_urls_and_filenames [OF initial_quiet initial_writable sample_info_fetch c j m,
      of finished sample_opts]
  from t mt have
    "fetched (run_events (sample_world finished) sample_opts initial) =
       [RELEASE_INFO, download_url ''1.2.3'' ''.zip'', download_url ''1.2.3'' ''.tar.gz'']"
    "started (run_events (sample_world finished) sample_opts initial) =
       [get_checksum sample_opts (local_file (download_url ''1.2.3'' ''.zip'')),
        get_checksum sample_opts (local_file (download_url ''1.2.3'' ''.tar.gz''))]"
    by (simp_all add: sample_release)
  moreover from t have "local_file (download_url ''1.2.3'' ''.zip'') = ''govready-q-1.2.3.zip''"
    "local_file (download_url ''1.2.3'' ''.tar.gz'') = ''govready-q-1.2.3.tar.gz''"
    by (simp_all add: sample_release)
  moreover from t download_sample
  have "''govready-q-1.2.3.zip'' = local_file zip_url" by blast
  ultimately show ?thesis
    by (simp add: download_url_def get_checksum_def sample_opts_simps download_sample)
qed

lemma exit_status_raises:
  assumes "sigint s = None" and "writable s" and "main_try w cli (begun s) = (Inl err, s1)"
  shows "fst (exit_status w cli s) = Status 1"
proof -
  let ?s53 = "s\<lparr>installed := True, lineno := 53\<rparr>"
  obtain r s' where run: "script w cli s = (r, s')" by (cases "script w cli s")
  with script_installed [OF assms(1)] have inst: "installed_script w cli ?s53 = (r, s')"
    by simp
  from assms(1) have q: "sigint ?s53 = None" "installed ?s53" by simp_all
  note st = steadyD [OF steady_installed_script q inst]
  from run assms(3) have "except cli err s1 = (r, s')"
    by (simp add: script_quiet [OF assms(1,2)])
  with fatal_except [of cli err] obtain e where e: "r = Inl e" unfolding fatal_def by blast
  from assms(2) st(4) have "flush_error s' = (\<lambda>k. None)" by (simp add: writable_def)
  with run e st(5) status_steady [OF st(5)] st(6) show ?thesis
    by (simp add: exit_status_def finalize_def)
qed

lemma run_optionally_verbose_returns:
  assumes "run_optionally_verbose w cmd secs verbose_flag s = (Inr p, s')"
    and "verbose_flag \<noteq> 0"
  shows "stdout p = None"
proof -
  from assms obtain u s1 q s2 s3
    where 2: "tick (subprocess_run w cmd secs False) s1 = (Inr q, s2)"
      and 4: "tick (ret q) s3 = (Inr p, s')"
    by (auto simp: run_optionally_verbose_def dest!: seq_returns)
  from tick_returns [OF 4] have "p = q" by (auto simp: ret_def)
  moreover from tick_returns [OF 2] obtain t where "subprocess_run w cmd secs False t = (Inr q, s2)"
    by blast
  then have "stdout q = None"
    by (auto simp: subprocess_run_def split: process_end.splits)
  ultimately show ?thesis by simp
qed

lemma checksum_of_uncaptured:
  assumes "stdout p = None"
  shows "checksum_of p s = (Inl (AttributeError ''decode''), s)"
  using assms by (simp add: checksum_of_def decode_method_def seq_def raise_def)

lemma no_checksum_line [simp]:
  "filter checksum_line (printed (fetching url)) = []"
  "filter checksum_line (printed (measuring url name n cmd)) = []"
  "filter checksum_line (printed (elapsed cli)) = []"
  "filter checksum_line (printed (resolving v release_name)) = []"
  by (simp_all add: fetching_def measuring_def elapsed_def resolving_def checksum_line_def
      SPACER_def)

lemma loop_body_verbose:
  assumes "sigint s = None" and "writable s" and "verbose cli \<noteq> 0"
    and "loop_body w cli release_name ext s = (r, s')"
  shows "(\<exists>err. r = Inl err)
    \<and> (\<exists>ev. trace s' = trace s @ ev \<and> filter checksum_line (printed ev) = [])"
  using assms
  by (auto simp: loop_body_quiet Let_def step_def saved_def printed_append
      split: sum.splits option.splits process_end.splits if_splits)

lemma main_try_verbose:
  assumes "sigint s = None" and "writable s" and "verbose cli \<noteq> 0"
    and "main_try w cli s = (r, s')"
  shows "(\<exists>err. r = Inl err)
    \<and> (\<exists>ev. trace s' = trace s @ ev \<and> filter checksum_line (printed ev) = [])"
proof (cases "\<exists>resp u. requests_get w RELEASE_INFO = Inr resp \<and> status_code resp = 200
    \<and> (\<exists>kvs. json resp = Inr (PDict kvs) \<and> map_of kvs ''html_url'' = Some (PStr u))")
  case True
  then obtain resp u kvs where "requests_get w RELEASE_INFO = Inr resp" "status_code resp = 200"
    "json resp = Inr (PDict kvs)" "map_of kvs ''html_url'' = Some (PStr u)"
    by blast
  with assms have loop: "for_loop (loop_body w cli (last_segment u)) [''.zip'', ''.tar.gz'']
      (step 150 (resolving (PStr u) (last_segment u)) s) = (r, s')"
    by (simp add: main_try_quiet)
  let ?s0 = "step 150 (resolving (PStr u) (last_segment u)) s"
  obtain r1 s1 where b1: "loop_body w cli (last_segment u) ''.zip'' (?s0\<lparr>lineno := 153\<rparr>) = (r1, s1)"
    by (cases "loop_body w cli (last_segment u) ''.zip'' (?s0\<lparr>lineno := 153\<rparr>)")
  from assms(1,2) have q: "sigint (?s0\<lparr>lineno := 153\<rparr>) = None" "writable (?s0\<lparr>lineno := 153\<rparr>)"
    by (simp_all add: step_def)
  from loop_body_verbose [OF q assms(3) b1]
  obtain err ev where r1: "r1 = Inl err"
    and ev: "trace s1 = trace s @ resolving (PStr u) (last_segment u) @ ev"
      "filter checksum_line (printed ev) = []"
    by (auto simp: step_def)
  from assms(1) have "sigint ?s0 = None" by (simp add: step_def)
  with loop b1 r1 have "r = Inl err" "s' = s1"
    by (simp_all add: seq_def stmt_quiet)
  with ev show ?thesis by (simp add: printed_append)
next
  case False
  with assms show ?thesis
    by (auto simp: main_try_quiet step_def checksum_line_def api_error_def SPACER_def
        split: sum.splits option.splits pyval.splits if_splits)
qed

text \<open>C10, as amended. In verbose mode, whatever \<open>run_optionally_verbose\<close> returns has no
  captured output, and the extraction of line 175 raises \<open>AttributeError\<close> on it. So in
  every verbose run that no interrupt reaches and that can write to standard output,
  the \<open>try\<close> suite ends with an exception, the exit status is 1 and no checksum line is
  printed; and when a command of the run exits with 0, that exception is the
  \<open>AttributeError\<close> of line 175, which the catch-all reports after the elapsed
  time.\<close>

theorem verbose_renders_no_checksum:
  assumes "verbose cli \<noteq> 0"
  shows "(\<forall>cmd secs s0 p s1.
            run_optionally_verbose w cmd secs (verbose cli) s0 = (Inr p, s1) \<longrightarrow>
              stdout p = None \<and> checksum_of p s1 = (Inl (AttributeError ''decode''), s1))
    \<and> (sigint s = None \<and> writable s \<longrightarrow>
          fst (exit_status w cli s) = Status 1
        \<and> (\<exists>err. fst (main_try w cli (begun s)) = Inl err)
        \<and> filter checksum_line (printed (run_events w cli s)) = []
        \<and> (\<forall>cmd rest out err.
              after_run cmd (run_events w cli s) = Some rest
              \<and> spawn w cmd (timeout cli) False = Exited 0 out err \<longrightarrow>
                fst (main_try w cli (begun s)) = Inl (AttributeError ''decode'')
                \<and> rest = elapsed cli
                    @ [Stderr (unrecognized_message 175 (AttributeError ''decode''))]))"
proof -
  have A: "stdout p = None \<and> checksum_of p s1 = (Inl (AttributeError ''decode''), s1)"
    if "run_optionally_verbose w cmd secs (verbose cli) s0 = (Inr p, s1)" for cmd secs s0 p s1
    using run_optionally_verbose_returns [OF that assms] by (simp add: checksum_of_uncaptured)
  have B: "fst (exit_status w cli s) = Status 1
        \<and> (\<exists>err. fst (main_try w cli (begun s)) = Inl err)
        \<and> filter checksum_line (printed (run_events w cli s)) = []
        \<and> (\<forall>cmd rest out err.
              after_run cmd (run_events w cli s) = Some rest
              \<and> spawn w cmd (timeout cli) False = Exited 0 out err \<longrightarrow>
                fst (main_try w cli (begun s)) = Inl (AttributeError ''decode'')
                \<and> rest = elapsed cli
                    @ [Stderr (unrecognized_message 175 (AttributeError ''decode''))])"
    if q: "sigint s = None" "writable s"
  proof -
    obtain r s1 where mt: "main_try w cli (begun s) = (r, s1)"
      by (cases "main_try w cli (begun s)")
    from q have qb: "sigint (begun s) = None" "writable (begun s)" by simp_all
    from main_try_verbose [OF qb assms mt]
    obtain e ev where r: "r = Inl e" and ev: "trace s1 = trace s @ Stdout banner # ev"
      "filter checksum_line (printed ev) = []"
      by auto
    from exit_status_raises [OF q mt [unfolded r]]
    have 1: "fst (exit_status w cli s) = Status 1" .
    from run_events_quiet [OF q mt]
    obtain ev' hev where run: "run_events w cli s = Stdout banner # ev' @ hev"
      and tr: "trace s1 = trace s @ Stdout banner # ev'" and hev: "list_all is_stderr hev"
      by blast
    from ev(1) tr have "ev' = ev" by simp
    with run ev(2) hev have 3: "filter checksum_line (printed (run_events w cli s)) = []"
      by (simp add: printed_append printed_stderr checksum_line_def banner_def)
    have 4: "fst (main_try w cli (begun s)) = Inl (AttributeError ''decode'')
        \<and> rest = elapsed cli @ [Stderr (unrecognized_message 175 (AttributeError ''decode''))]"
      if a: "after_run cmd (run_events w cli s) = Some rest"
        and sp: "spawn w cmd (timeout cli) False = Exited 0 out err" for cmd rest out err
    proof -
      from after_run_events [OF q mt a]
      obtain ev2 hev2 rest' where rest: "rest = rest' @ hev2" "after_run cmd ev2 = Some rest'"
        and h2: "trace (snd (exit_status w cli s)) = trace s1 @ hev2"
        and ex: "explained w cli r (lineno s1) ev2"
        by blast
      from assms sp have "spawn w cmd (timeout cli) (verbose cli = 0) = Exited 0 out err"
        by simp
      with ex [unfolded explained_def, rule_format, OF rest(2)] assms
      have r': "r = Inl (AttributeError ''decode'')" and l: "lineno s1 = 175"
        and rest': "rest' = elapsed cli"
        by simp_all
      have "unclassified (AttributeError ''decode'')" by simp
      from exit_status_unclassified [OF q mt [unfolded r'] this] h2 l
      have "hev2 = [Stderr (unrecognized_message 175 (AttributeError ''decode''))]"
        by (simp add: step_def)
      with rest rest' mt r' show ?thesis by simp
    qed
    from 1 3 4 mt r show ?thesis by auto
  qed
  from A B show ?thesis by blast
qed

lemma sample_try_finished_verbose:
  "main_try (sample_world finished) verbose_opts (begun initial) =
     (Inl (AttributeError ''decode''),
      initial\<lparr>installed := True, lineno := 175, trace := sample_trace @ elapsed verbose_opts,
        files := [''govready-q-1.2.3.zip'' \<mapsto> ''PK'']\<rparr>)"
  by (simp add: main_try_quiet loop_body_quiet stmt_quiet seq_def step_def initial_def begun_def
      sample_release sample_zip_file sample_zip_fetch sample_info_fetch sample_world_simps
      saved_def Let_def release_page_def archive_def verbose_opts_simps get_checksum_def
      zip_command_def sample_trace_def writable_def finished_def)

lemma sample_events_finished_verbose:
  "run_events (sample_world finished) verbose_opts initial =
     sample_trace @ elapsed verbose_opts
       @ [Stderr (unrecognized_message 175 (AttributeError ''decode''))]"
proof -
  have "unclassified (AttributeError ''decode'')" by simp
  from exit_status_unclassified [OF initial_quiet initial_writable sample_try_finished_verbose this]
  show ?thesis
    by (simp add: run_events_def step_def initial_def)
qed

theorem verbose_renders_no_checksum_witness:
  "stdout (completed verbose_opts zip_command 0 shasum_output []) = None
   \<and> fst (exit_status (sample_world finished) verbose_opts initial) = Status 1
   \<and> fst (main_try (sample_world finished) verbose_opts (begun initial)) =
       Inl (AttributeError ''decode'')
   \<and> filter checksum_line (printed (run_events (sample_world finished) verbose_opts initial)) = []
   \<and> after_run zip_command (run_events (sample_world finished) verbose_opts initial) =
       Some (elapsed verbose_opts @ [Stderr (unrecognized_message 175 (AttributeError ''decode''))])"
proof -
  have v: "verbose verbose_opts \<noteq> 0" by (simp add: verbose_opts_simps)
  have a: "after_run zip_command (run_events (sample_world finished) verbose_opts initial) =
      Some (elapsed verbose_opts @ [Stderr (unrecognized_message 175 (AttributeError ''decode''))])"
    by (simp only: sample_events_finished_verbose after_run_sample_trace)
  have sp: "spawn (sample_world finished) zip_command (timeout verbose_opts) False =
      Exited 0 shasum_output []"
    by (simp add: sample_world_simps finished_def)
  from verbose_renders_no_checksum [OF v, of "sample_world finished" initial]
    initial_quiet initial_writable a sp
  have "fst (exit_status (sample_world finished) verbose_opts initial) = Status 1"
    "filter checksum_line (printed (run_events (sample_world finished) verbose_opts initial)) = []"
    "fst (main_try (sample_world finished) verbose_opts (begun initial)) =
       Inl (AttributeError ''decode'')"
    by blast+
  with a show ?thesis by (simp add: completed_def verbose_opts_simps)
qed

lemma sample_verbose_interrupted:
  "exit_status (sample_world finished) verbose_opts (interrupted_at 30) =
     (Status 0, initial\<lparr>installed := True, delivered := True, lineno := 138,
        trace := [Stdout banner, Get RELEASE_INFO]\<rparr>)"
  by (simp add: run_defs io_defs interrupted_at_def initial_def sample_info_fetch)

lemma sample_verbose_silenced:
  "exit_status (sample_world finished) verbose_opts silenced =
     (Status 1, silenced\<lparr>installed := True, lineno := 130,
        trace := [Stderr (traceback (LibraryError ''Broken pipe''))]\<rparr>)"
  by (simp add: run_defs io_defs silenced_def initial_def)

lemma sample_verbose_unflushable:
  "fst (exit_status (sample_world finished) verbose_opts unflushable) = Status 120"
  by (simp add: run_defs io_defs unflushable_def initial_def checksum_of_def
      except_Exception_def
      index_last_split last_split_slash
      sample_release sample_zip_file sample_zip_fetch sample_info_fetch sample_world_simps
      release_page_def archive_def verbose_opts_simps get_checksum_def finished_def)

text \<open>C10 as stated fails: not every verbose run ends in the catch-all. When the command
  times out, the run ends in the clause of line 218, with its two lines. When the
  interrupt arrives as line 139 begins, the exit status is 0 and nothing is reported.
  When standard output cannot be written, the banner of line 130, outside the \<open>try\<close>
  statement, raises and the run ends with a traceback. When standard output cannot be
  flushed at exit, the status is 120.\<close>

theorem verbose_counterexample:
  "verbose verbose_opts = 1
   \<and> run_events (sample_world Expired) verbose_opts initial =
       sample_trace @ [Stderr (timeout_message zip_command (Remaining 120)),
         Stderr (suggestion_message 600)]
   \<and> run_events (sample_world finished) verbose_opts (interrupted_at 30) =
       [Stdout banner, Get RELEASE_INFO]
   \<and> fst (exit_status (sample_world finished) verbose_opts (interrupted_at 30)) = Status 0
   \<and> run_events (sample_world finished) verbose_opts silenced =
       [Stderr (traceback (LibraryError ''Broken pipe''))]
   \<and> fst (exit_status (sample_world finished) verbose_opts unflushable) = Status 120"
proof -
  have 1: "run_events (sample_world finished) verbose_opts (interrupted_at 30) =
      [Stdout banner, Get RELEASE_INFO]"
    unfolding run_events_def sample_verbose_interrupted
    by (simp add: interrupted_at_def initial_def)
  have 2: "run_events (sample_world finished) verbose_opts silenced =
      [Stderr (traceback (LibraryError ''Broken pipe''))]"
    unfolding run_events_def sample_verbose_silenced
    by (simp add: silenced_def initial_def)
  show ?thesis
    unfolding 1 2 sample_events_expired_verbose sample_verbose_interrupted
      sample_verbose_unflushable
    by (simp add: verbose_opts_simps)
qed

end
